theory Spec2Isabelle
  imports Complex_Main "HOL-Library.Sublist"
begin

section \<open>Python values\<close>

text \<open>
  The model of \<open>streams.py\<close>. Functions keep their names, without the leading underscore
  of the private ones. A Python \<open>str\<close> is a sequence of Unicode code points; a code point
  is a natural number. \<open>ustr\<close> turns an ASCII literal into such a sequence.
\<close>

type_synonym pystr = "nat list"

definition ustr :: "string \<Rightarrow> pystr" where
  "ustr s = map of_char s"

text \<open>A Python float: a finite value (every finite double is a rational) or one of the specials.\<close>

datatype pyfloat = Finite rat | PosInf | NegInf | NaN

text \<open>
  The values \<open>json.loads\<close> produces, which are also what \<open>Any\<close> ranges over in this
  program. A dict is the list of its items, in insertion order, each key once.
\<close>

datatype json =
    JNull
  | JBool bool
  | JInt int
  | JFloat pyfloat
  | JStr pystr
  | JArr "json list"
  | JObj "(pystr \<times> json) list"

type_synonym entry = "(pystr \<times> json) list"

text \<open>The exceptions the program raises or lets through; all of them derive from \<open>Exception\<close>.\<close>

datatype py_exn =
    ValueError
  | RuntimeError
  | AttributeError
  | TypeError
  | JSONDecodeError
  | UnicodeDecodeError
  | OverflowError
  | URLError
  | HTTPError
  | TimeoutError

text \<open>
  The functions of the Python standard library the program calls and whose tables (the
  Unicode character database, the JSON grammar, float printing) are not part of the program.
  They are parameters of the model.
\<close>

record lib =
  unicodedata_normalize_NFD :: "pystr \<Rightarrow> pystr"  \<comment> \<open>\<open>unicodedata.normalize("NFD", s)\<close>\<close>
  unicodedata_category_Mn :: "nat \<Rightarrow> bool"  \<comment> \<open>\<open>unicodedata.category(ch) == "Mn"\<close>\<close>
  str_lower :: "pystr \<Rightarrow> pystr"  \<comment> \<open>\<open>s.lower()\<close>\<close>
  re_word :: "nat \<Rightarrow> bool"  \<comment> \<open>the character class \<open>\w\<close> of a str pattern\<close>
  re_ignorecase_eq :: "nat \<Rightarrow> nat \<Rightarrow> bool"
    \<comment> \<open>a literal pattern character matches a text character under \<open>re.IGNORECASE\<close>\<close>
  json_loads :: "pystr \<Rightarrow> py_exn + json"  \<comment> \<open>\<open>json.loads(s)\<close>\<close>
  float_repr :: "rat \<Rightarrow> pystr"  \<comment> \<open>\<open>repr\<close> of a finite float\<close>
  str_repr :: "pystr \<Rightarrow> pystr"  \<comment> \<open>\<open>repr\<close> of a str\<close>

subsection \<open>Built-in string operations\<close>

text \<open>\<open>str.isspace\<close> of one character, which is also the class \<open>\s\<close> of a str pattern.\<close>

definition py_isspace :: "nat \<Rightarrow> bool" where
  "py_isspace c \<longleftrightarrow>
     (9 \<le> c \<and> c \<le> 13) \<or> (28 \<le> c \<and> c \<le> 32) \<or> c = 133 \<or> c = 160 \<or> c = 5760 \<or>
     (8192 \<le> c \<and> c \<le> 8202) \<or> c = 8232 \<or> c = 8233 \<or> c = 8239 \<or> c = 8287 \<or> c = 12288"

text \<open>\<open>s.strip()\<close>\<close>

definition py_strip :: "pystr \<Rightarrow> pystr" where
  "py_strip s = rev (dropWhile py_isspace (rev (dropWhile py_isspace s)))"

text \<open>\<open>s.split(sep)\<close> for a separator of one character: empty pieces are kept.\<close>

fun py_split :: "nat \<Rightarrow> pystr \<Rightarrow> pystr list" where
  "py_split sep [] = [[]]"
| "py_split sep (c # cs) =
     (if c = sep then [] # py_split sep cs
      else (case py_split sep cs of w # ws \<Rightarrow> (c # w) # ws | [] \<Rightarrow> [[c]]))"

text \<open>\<open>needle in haystack\<close> for two strings: \<open>needle\<close> is a contiguous substring.\<close>

fun py_startswith :: "pystr \<Rightarrow> pystr \<Rightarrow> bool" where
  "py_startswith s [] = True"
| "py_startswith [] (p # ps) = False"
| "py_startswith (c # cs) (p # ps) = (c = p \<and> py_startswith cs ps)"

fun py_in :: "pystr \<Rightarrow> pystr \<Rightarrow> bool" where
  "py_in needle [] = (needle = [])"
| "py_in needle (c # cs) = (py_startswith (c # cs) needle \<or> py_in needle cs)"

text \<open>\<open>sep.join(parts)\<close>\<close>

fun py_join :: "pystr \<Rightarrow> pystr list \<Rightarrow> pystr" where
  "py_join sep [] = []"
| "py_join sep [p] = p"
| "py_join sep (p # q # ps) = p @ sep @ py_join sep (q # ps)"

text \<open>\<open>str(n)\<close> for an int: decimal digits, with a minus sign when negative.\<close>

fun digits :: "nat \<Rightarrow> pystr" where
  "digits n = (if n < 10 then [48 + n] else digits (n div 10) @ [48 + n mod 10])"

declare digits.simps [simp del]

definition int_str :: "int \<Rightarrow> pystr" where
  "int_str i = (if i < 0 then 45 # digits (nat (- i)) else digits (nat i))"

text \<open>\<open>repr(x)\<close> and \<open>str(x)\<close>; they differ on strings only.\<close>

fun py_repr :: "lib \<Rightarrow> json \<Rightarrow> pystr" where
  "py_repr L JNull = ustr ''None''"
| "py_repr L (JBool b) = (if b then ustr ''True'' else ustr ''False'')"
| "py_repr L (JInt i) = int_str i"
| "py_repr L (JFloat f) =
     (case f of Finite r \<Rightarrow> float_repr L r | PosInf \<Rightarrow> ustr ''inf''
      | NegInf \<Rightarrow> ustr ''-inf'' | NaN \<Rightarrow> ustr ''nan'')"
| "py_repr L (JStr s) = str_repr L s"
| "py_repr L (JArr xs) = ustr ''['' @ py_join (ustr '', '') (map (py_repr L) xs) @ ustr '']''"
| "py_repr L (JObj kvs) =
     ustr ''{'' @
     py_join (ustr '', '') (map (\<lambda>kv. str_repr L (fst kv) @ ustr '': '' @ py_repr L (snd kv)) kvs) @
     ustr ''}''"

definition py_str :: "lib \<Rightarrow> json \<Rightarrow> pystr" where
  "py_str L v = (case v of JStr s \<Rightarrow> s | _ \<Rightarrow> py_repr L v)"

text \<open>Truth value of a Python object, as \<open>if x\<close>, \<open>x or y\<close> and \<open>bool(x)\<close> take it.\<close>

definition truthy :: "json \<Rightarrow> bool" where
  "truthy v =
     (case v of JNull \<Rightarrow> False | JBool b \<Rightarrow> b | JInt i \<Rightarrow> i \<noteq> 0
      | JFloat f \<Rightarrow> f \<noteq> Finite 0 | JStr s \<Rightarrow> s \<noteq> [] | JArr xs \<Rightarrow> xs \<noteq> []
      | JObj kvs \<Rightarrow> kvs \<noteq> [])"

text \<open>\<open>d.get(key, default)\<close> on a dict.\<close>

definition dict_get :: "entry \<Rightarrow> pystr \<Rightarrow> json \<Rightarrow> json" where
  "dict_get d k dflt = (case map_of d k of Some v \<Rightarrow> v | None \<Rightarrow> dflt)"

section \<open>Text normalization\<close>

definition is_az09 :: "nat \<Rightarrow> bool" where
  "is_az09 c \<longleftrightarrow> (97 \<le> c \<and> c \<le> 122) \<or> (48 \<le> c \<and> c \<le> 57)"

text \<open>
  \<open>re.sub(CLASS+, " ", text)\<close> for a character class: every maximal run of characters of the
  class becomes one space.
\<close>

function re_sub_runs :: "(nat \<Rightarrow> bool) \<Rightarrow> pystr \<Rightarrow> pystr" where
  "re_sub_runs P [] = []"
| "re_sub_runs P (c # cs) =
     (if P c then 32 # re_sub_runs P (dropWhile P cs) else c # re_sub_runs P cs)"
  by pat_completeness auto
termination
  by (relation "measure (\<lambda>(P, cs). length cs)") (auto simp: le_imp_less_Suc length_dropWhile_le)

definition normalize_text :: "lib \<Rightarrow> json \<Rightarrow> pystr" where
  "normalize_text L v =
     (if v = JNull then []
      else
        let text = unicodedata_normalize_NFD L (py_str L v);
            text = filter (\<lambda>ch. \<not> unicodedata_category_Mn L ch) text;
            text = str_lower L text;
            text = re_sub_runs (\<lambda>c. \<not> is_az09 c) text
        in py_strip text)"

subsection \<open>Generic words\<close>

definition generic_words :: "pystr list" where
  "generic_words = map ustr [''fiume'', ''torrente'', ''rio'', ''canale'', ''fosso'']"

text \<open>A literal word matches at the head of the text, ignoring case.\<close>

fun imatch :: "lib \<Rightarrow> pystr \<Rightarrow> pystr \<Rightarrow> bool" where
  "imatch L [] cs = True"
| "imatch L (p # ps) [] = False"
| "imatch L (p # ps) (c # cs) = (re_ignorecase_eq L p c \<and> imatch L ps cs)"

text \<open>
  \<open>\b\<close> between two neighbouring characters (\<open>None\<close> is an end of the string): exactly
  one side is a word character.
\<close>

definition word_boundary :: "lib \<Rightarrow> nat option \<Rightarrow> nat option \<Rightarrow> bool" where
  "word_boundary L a b \<longleftrightarrow>
     (case a of None \<Rightarrow> False | Some c \<Rightarrow> re_word L c) \<noteq>
     (case b of None \<Rightarrow> False | Some c \<Rightarrow> re_word L c)"

definition char_at :: "pystr \<Rightarrow> nat \<Rightarrow> nat option" where
  "char_at s i = (if i < length s then Some (s ! i) else None)"

text \<open>
  \<open>\b(fiume|torrente|rio|canale|fosso)\b\<close> matched at the head of \<open>text\<close>, whose left
  neighbour is \<open>prev\<close>: the length of the match. The alternatives are tried in order.
\<close>

definition match_generic :: "lib \<Rightarrow> nat option \<Rightarrow> pystr \<Rightarrow> nat option" where
  "match_generic L prev text =
     (if \<not> word_boundary L prev (char_at text 0) then None
      else
        case find (\<lambda>w. imatch L w text \<and>
                        word_boundary L (char_at text (length w - 1)) (char_at text (length w)))
               generic_words of
          None \<Rightarrow> None
        | Some w \<Rightarrow> Some (length w))"

text \<open>
  The substitution of every match by one space, scanning from the left; \<open>skip\<close> counts the
  characters of the current match that are still to be consumed.
\<close>

fun sub_generic :: "lib \<Rightarrow> nat \<Rightarrow> nat option \<Rightarrow> pystr \<Rightarrow> pystr" where
  "sub_generic L skip prev [] = []"
| "sub_generic L (Suc skip) prev (c # cs) = sub_generic L skip (Some c) cs"
| "sub_generic L 0 prev (c # cs) =
     (case match_generic L prev (c # cs) of
        Some n \<Rightarrow> 32 # sub_generic L (n - 1) (Some c) cs
      | None \<Rightarrow> c # sub_generic L 0 (Some c) cs)"

definition strip_generic_words :: "lib \<Rightarrow> json \<Rightarrow> pystr" where
  "strip_generic_words L v =
     (if v = JNull then []
      else
        let text = sub_generic L 0 None (py_str L v)
        in py_strip (re_sub_runs py_isspace text))"

section \<open>Station matcher\<close>

definition nomestaz :: "lib \<Rightarrow> entry \<Rightarrow> pystr" where
  "nomestaz L e = normalize_text L (dict_get e (ustr ''nomestaz'') (JStr []))"

text \<open>\<open>xs.sort(key=key, reverse=True)\<close>: a stable sort, largest key first.\<close>

definition py_sort_reverse :: "('a \<Rightarrow> nat) \<Rightarrow> 'a list \<Rightarrow> 'a list" where
  "py_sort_reverse key xs = rev (sort_key key (rev xs))"

definition query_tokens :: "lib \<Rightarrow> json \<Rightarrow> pystr list" where
  "query_tokens L query =
     filter (\<lambda>token. token \<noteq> [])
       (py_split 32 (normalize_text L (JStr (strip_generic_words L query))))"

definition token_score :: "lib \<Rightarrow> pystr list \<Rightarrow> entry \<Rightarrow> nat" where
  "token_score L tokens e = length (filter (\<lambda>token. py_in token (nomestaz L e)) tokens)"

definition select_stations_by_query :: "lib \<Rightarrow> entry list \<Rightarrow> json \<Rightarrow> entry list \<times> entry list" where
  "select_stations_by_query L entries query =
     (let cleaned = normalize_text L (JStr (strip_generic_words L query))
      in if cleaned = [] then ([], [])
         else
           let tokens = filter (\<lambda>token. token \<noteq> []) (py_split 32 cleaned);
               matches = filter (\<lambda>e. list_all (\<lambda>token. py_in token (nomestaz L e)) tokens) entries
           in if matches \<noteq> [] then (matches, [])
              else
                let scored = filter (\<lambda>item. fst item > 0)
                               (map (\<lambda>e. (token_score L tokens e, e)) entries);
                    scored = py_sort_reverse fst scored;
                    suggestions = map snd (take 5 scored)
                in ([], suggestions))"

section \<open>Retrieval fallback\<close>

subsection \<open>The process environment and the network\<close>

record http_request =
  req_url :: pystr
  req_payload :: json  \<comment> \<open>the dict that \<open>json.dumps\<close> serialises into the body\<close>
  req_headers :: "(pystr \<times> pystr) list"

text \<open>What the program does to the outside, in order.\<close>

datatype event = SensorRequest int | OpenAIRequest http_request

text \<open>A naive \<open>datetime\<close>.\<close>

record datetime =
  year :: int
  month :: int
  day :: int
  hour :: int
  minute :: int
  second :: int
  microsecond :: int

text \<open>
  The local time zone of the process, as the modules \<open>time\<close> and \<open>datetime\<close> expose it.
  \<open>time_mktime\<close> is \<open>time.mktime(dt.timetuple())\<close> and \<open>datetime_timestamp\<close> is
  \<open>dt.timestamp()\<close> of a naive \<open>dt\<close>, both in whole seconds (the program only takes the
  timestamp of a \<open>datetime\<close> whose microsecond is 0, where the float is a whole number and the
  product with 1000 is exact).
\<close>

record tz =
  time_mktime :: "datetime \<Rightarrow> int"
  localtime_isdst :: "int \<Rightarrow> int"  \<comment> \<open>\<open>time.localtime(t).tm_isdst\<close>\<close>
  time_daylight :: int
  time_altzone :: int
  time_timezone :: int
  datetime_timestamp :: "datetime \<Rightarrow> int"

text \<open>
  The environment variables, the clock and the two remote services. A service answers a
  request with a status and a decoded body, or the call (\<open>urlopen\<close>, \<open>read\<close>, \<open>decode\<close>)
  raises.
\<close>

record world =
  env_OPENAI_API_KEY :: "pystr option"
  env_OPENAI_VECTOR_STORE_ID :: "pystr option"
  env_OPENAI_BETA :: "pystr option"
  OPENAI_BASE_URL :: pystr
  OPENAI_DEFAULT_MODEL :: pystr
  openai_urlopen :: "http_request \<Rightarrow> py_exn + (int \<times> pystr)"
  sensor_urlopen :: "int \<Rightarrow> py_exn + (int \<times> pystr)"
  datetime_now :: datetime
  local_tz :: tz

text \<open>Truth value of \<open>os.getenv(name)\<close>: set and not empty.\<close>

definition env_set :: "pystr option \<Rightarrow> bool" where
  "env_set v = (case v of None \<Rightarrow> False | Some s \<Rightarrow> s \<noteq> [])"

definition is_retrieval_enabled :: "world \<Rightarrow> bool" where
  "is_retrieval_enabled W \<longleftrightarrow> env_set (env_OPENAI_API_KEY W) \<and> env_set (env_OPENAI_VECTOR_STORE_ID W)"

text \<open>The request that \<open>_openai_create_response\<close> builds for a payload.\<close>

definition openai_request :: "world \<Rightarrow> json \<Rightarrow> http_request" where
  "openai_request W payload =
     (let api_key = the (env_OPENAI_API_KEY W);
          headers = [(ustr ''Authorization'', ustr ''Bearer '' @ api_key),
                     (ustr ''Content-Type'', ustr ''application/json'')];
          headers = (if env_set (env_OPENAI_BETA W)
                     then headers @ [(ustr ''OpenAI-Beta'', the (env_OPENAI_BETA W))]
                     else headers)
      in \<lparr>req_url = OPENAI_BASE_URL W @ ustr ''/responses'',
          req_payload = payload, req_headers = headers\<rparr>)"

definition openai_create_response :: "lib \<Rightarrow> world \<Rightarrow> json \<Rightarrow> event list \<times> (py_exn + json)" where
  "openai_create_response L W payload =
     (if \<not> env_set (env_OPENAI_API_KEY W) then ([], Inl RuntimeError)
      else
        let request = openai_request W payload
        in ([OpenAIRequest request],
            case openai_urlopen W request of
              Inl e \<Rightarrow> Inl e
            | Inr (status, body) \<Rightarrow>
                if status \<noteq> 200 then Inl RuntimeError
                else if body = [] then Inr (JObj [])
                else json_loads L body))"

subsection \<open>Reading the response\<close>

text \<open>The parts of one \<open>content\<close> list: the stripped texts of the \<open>output_text\<close> parts.\<close>

fun extract_parts :: "json list \<Rightarrow> py_exn + pystr list" where
  "extract_parts [] = Inr []"
| "extract_parts (part # parts) =
     (case part of
        JObj kvs \<Rightarrow>
          if dict_get kvs (ustr ''type'') JNull = JStr (ustr ''output_text'') \<and>
             truthy (dict_get kvs (ustr ''text'') JNull)
          then (case dict_get kvs (ustr ''text'') JNull of
                  JStr t \<Rightarrow>
                    (case extract_parts parts of
                       Inl e \<Rightarrow> Inl e
                     | Inr chunks \<Rightarrow> Inr (py_strip t # chunks))
                | _ \<Rightarrow> Inl AttributeError)
          else extract_parts parts
      | _ \<Rightarrow> Inl AttributeError)"

text \<open>
  What \<open>for part in item.get("content", []) or []\<close> iterates over: the items of a list, the
  characters of a string, the keys of a dict; any other true value is not iterable.
\<close>

definition content_parts :: "json \<Rightarrow> py_exn + json list" where
  "content_parts v =
     (if \<not> truthy v then Inr []
      else case v of
             JArr xs \<Rightarrow> Inr xs
           | JStr s \<Rightarrow> Inr (map (\<lambda>c. JStr [c]) s)
           | JObj kvs \<Rightarrow> Inr (map (\<lambda>kv. JStr (fst kv)) kvs)
           | _ \<Rightarrow> Inl TypeError)"

fun extract_items :: "json list \<Rightarrow> py_exn + pystr list" where
  "extract_items [] = Inr []"
| "extract_items (item # items) =
     (case item of
        JObj kvs \<Rightarrow>
          if dict_get kvs (ustr ''type'') JNull \<noteq> JStr (ustr ''message'') then extract_items items
          else (case content_parts (dict_get kvs (ustr ''content'') (JArr [])) of
                  Inl e \<Rightarrow> Inl e
                | Inr parts \<Rightarrow>
                    (case extract_parts parts of
                       Inl e \<Rightarrow> Inl e
                     | Inr chunks \<Rightarrow>
                         (case extract_items items of
                            Inl e \<Rightarrow> Inl e
                          | Inr rest \<Rightarrow> Inr (chunks @ rest))))
      | _ \<Rightarrow> Inl AttributeError)"

definition extract_output_text :: "json \<Rightarrow> py_exn + pystr" where
  "extract_output_text response =
     (case response of
        JObj kvs \<Rightarrow>
          (case dict_get kvs (ustr ''output'') JNull of
             JArr output \<Rightarrow>
               (case extract_items output of
                  Inl e \<Rightarrow> Inl e
                | Inr chunks \<Rightarrow> Inr (py_strip (py_join [10] chunks)))
           | _ \<Rightarrow> Inr [])
      | _ \<Rightarrow> Inl AttributeError)"

text \<open>
  \<open>re.search(r"\[[\s\S]*\]", text)\<close>: the match starts at the first \<open>[\<close> and, the star being
  greedy, ends at the last \<open>]\<close> after it.
\<close>

definition re_search_brackets :: "pystr \<Rightarrow> pystr option" where
  "re_search_brackets text =
     (case dropWhile (\<lambda>c. c \<noteq> 91) text of
        [] \<Rightarrow> None
      | c # body \<Rightarrow>
          if 93 \<in> set body then Some (c # rev (dropWhile (\<lambda>c. c \<noteq> 93) (rev body)))
          else None)"

definition as_list :: "json \<Rightarrow> json list" where
  "as_list parsed = (case parsed of JArr xs \<Rightarrow> xs | _ \<Rightarrow> [])"

definition parse_json_array :: "lib \<Rightarrow> pystr \<Rightarrow> py_exn + json list" where
  "parse_json_array L text =
     (if text = [] then Inr []
      else case json_loads L text of
             Inr parsed \<Rightarrow> Inr (as_list parsed)
           | Inl e \<Rightarrow>
               if e \<noteq> JSONDecodeError then Inl e
               else (case re_search_brackets text of
                       None \<Rightarrow> Inr []
                     | Some m \<Rightarrow>
                         (case json_loads L m of
                            Inr parsed \<Rightarrow> Inr (as_list parsed)
                          | Inl e' \<Rightarrow> if e' \<noteq> JSONDecodeError then Inl e' else Inr [])))"

text \<open>\<open>xs[:n]\<close>: a negative \<open>n\<close> counts from the end.\<close>

definition py_slice_to :: "int \<Rightarrow> 'a list \<Rightarrow> 'a list" where
  "py_slice_to n xs = (if 0 \<le> n then take (nat n) xs else take (length xs - nat (- n)) xs)"

definition retrieval_payload :: "lib \<Rightarrow> world \<Rightarrow> json \<Rightarrow> int \<Rightarrow> json" where
  "retrieval_payload L W query max_results =
     JObj [
       (ustr ''model'', JStr (OPENAI_DEFAULT_MODEL W)),
       (ustr ''input'', JArr [
          JObj [(ustr ''role'', JStr (ustr ''system'')),
                (ustr ''content'', JStr (ustr ''Return only a JSON array of station names. '' @
                                         ustr ''No extra text or formatting.''))],
          JObj [(ustr ''role'', JStr (ustr ''user'')),
                (ustr ''content'', JStr (ustr ''Query: '' @ py_str L query @
                                         ustr ''. Return up to '' @ int_str max_results @
                                         ustr '' station names.''))]]),
       (ustr ''tools'', JArr [JObj [(ustr ''type'', JStr (ustr ''file_search''))]]),
       (ustr ''tool_resources'', JObj [
          (ustr ''file_search'', JObj [
             (ustr ''vector_store_ids'',
              JArr [case env_OPENAI_VECTOR_STORE_ID W of None \<Rightarrow> JNull | Some v \<Rightarrow> JStr v])])]),
       (ustr ''temperature'', JInt 0)]"

definition retrieve_station_names ::
  "lib \<Rightarrow> world \<Rightarrow> json \<Rightarrow> int \<Rightarrow> event list \<times> (py_exn + pystr list)" where
  "retrieve_station_names L W query max_results =
     (if \<not> is_retrieval_enabled W then ([], Inr [])
      else
        let (trace, response) = openai_create_response L W (retrieval_payload L W query max_results)
        in (trace,
            case response of
              Inl e \<Rightarrow> Inl e
            | Inr response \<Rightarrow>
                (case extract_output_text response of
                   Inl e \<Rightarrow> Inl e
                 | Inr output_text \<Rightarrow>
                     (case parse_json_array L output_text of
                        Inl e \<Rightarrow> Inl e
                      | Inr items \<Rightarrow>
                          Inr (py_slice_to max_results
                                 (filter (\<lambda>name. name \<noteq> [])
                                    (map (\<lambda>item. py_strip (py_str L item)) items)))))))"

section \<open>Resolution orchestrator\<close>

definition select_stations_by_query_with_retrieval ::
  "lib \<Rightarrow> world \<Rightarrow> entry list \<Rightarrow> json \<Rightarrow> int \<Rightarrow> event list \<times> (entry list \<times> entry list)" where
  "select_stations_by_query_with_retrieval L W entries query max_results =
     (let (local_matches, local_suggestions) = select_stations_by_query L entries query
      in if local_matches \<noteq> [] \<or> \<not> is_retrieval_enabled W
         then ([], (local_matches, local_suggestions))
         else
           let (trace, retrieved) = retrieve_station_names L W query max_results
           in case retrieved of
                Inl e \<Rightarrow> (trace, (local_matches, local_suggestions))
              | Inr retrieved_names \<Rightarrow>
                  if retrieved_names = [] then (trace, (local_matches, local_suggestions))
                  else
                    let normalized = set (map (\<lambda>name. normalize_text L (JStr name)) retrieved_names);
                        matches = filter (\<lambda>e. nomestaz L e \<in> normalized) entries
                    in if matches \<noteq> [] then (trace, (matches, []))
                       else (trace, (local_matches, local_suggestions)))"

section \<open>Timestamp scheduler\<close>

subsection \<open>Calendar arithmetic of \<open>datetime\<close>\<close>

text \<open>Days from 1970-01-01 to a date of the proleptic Gregorian calendar.\<close>

definition days_from_civil :: "int \<Rightarrow> int \<Rightarrow> int \<Rightarrow> int" where
  "days_from_civil y m d =
     (let y' = (if m \<le> 2 then y - 1 else y);
          era = y' div 400;
          yoe = y' - era * 400;
          doy = (153 * (if m > 2 then m - 3 else m + 9) + 2) div 5 + d - 1;
          doe = yoe * 365 + yoe div 4 - yoe div 100 + doy
      in era * 146097 + doe - 719468)"

text \<open>Seconds of wall-clock time from 1970-01-01 00:00:00 to a naive \<open>datetime\<close>.\<close>

definition civil_seconds :: "datetime \<Rightarrow> int" where
  "civil_seconds dt =
     days_from_civil (year dt) (month dt) (day dt) * 86400 +
     hour dt * 3600 + minute dt * 60 + second dt"

text \<open>
  Arithmetic of a naive \<open>datetime\<close> with a \<open>timedelta\<close> is arithmetic on the wall clock, with
  \<open>OverflowError\<close> when the result leaves the years 1 to 9999. The program uses two cases:
  \<open>dt - timedelta(hours=1)\<close> and \<open>dt + timedelta(minutes=30)\<close>.
\<close>

definition is_leap :: "int \<Rightarrow> bool" where
  "is_leap y \<longleftrightarrow> y mod 4 = 0 \<and> (y mod 100 \<noteq> 0 \<or> y mod 400 = 0)"

definition days_in_month :: "int \<Rightarrow> int \<Rightarrow> int" where
  "days_in_month y m =
     (if m = 2 then (if is_leap y then 29 else 28)
      else if m = 4 \<or> m = 6 \<or> m = 9 \<or> m = 11 then 30 else 31)"

definition prev_day :: "datetime \<Rightarrow> py_exn + datetime" where
  "prev_day dt =
     (if 1 < day dt then Inr (dt\<lparr>day := day dt - 1\<rparr>)
      else if 1 < month dt
      then Inr (dt\<lparr>month := month dt - 1, day := days_in_month (year dt) (month dt - 1)\<rparr>)
      else if 1 < year dt then Inr (dt\<lparr>year := year dt - 1, month := 12, day := 31\<rparr>)
      else Inl OverflowError)"

definition next_day :: "datetime \<Rightarrow> py_exn + datetime" where
  "next_day dt =
     (if day dt < days_in_month (year dt) (month dt) then Inr (dt\<lparr>day := day dt + 1\<rparr>)
      else if month dt < 12 then Inr (dt\<lparr>month := month dt + 1, day := 1\<rparr>)
      else if year dt < 9999 then Inr (dt\<lparr>year := year dt + 1, month := 1, day := 1\<rparr>)
      else Inl OverflowError)"

definition minus_one_hour :: "datetime \<Rightarrow> py_exn + datetime" where
  "minus_one_hour dt =
     (if 0 < hour dt then Inr (dt\<lparr>hour := hour dt - 1\<rparr>)
      else case prev_day dt of Inl e \<Rightarrow> Inl e | Inr d \<Rightarrow> Inr (d\<lparr>hour := 23\<rparr>))"

definition plus_thirty_minutes :: "datetime \<Rightarrow> py_exn + datetime" where
  "plus_thirty_minutes dt =
     (if minute dt < 30 then Inr (dt\<lparr>minute := minute dt + 30\<rparr>)
      else if hour dt < 23 then Inr (dt\<lparr>hour := hour dt + 1, minute := minute dt - 30\<rparr>)
      else case next_day dt of
             Inl e \<Rightarrow> Inl e
           | Inr d \<Rightarrow> Inr (d\<lparr>hour := 0, minute := minute dt - 30\<rparr>))"

text \<open>The values a \<open>datetime\<close> object can hold.\<close>

definition valid_datetime :: "datetime \<Rightarrow> bool" where
  "valid_datetime dt \<longleftrightarrow>
     1 \<le> year dt \<and> year dt \<le> 9999 \<and> 1 \<le> month dt \<and> month dt \<le> 12 \<and>
     1 \<le> day dt \<and> day dt \<le> days_in_month (year dt) (month dt) \<and>
     0 \<le> hour dt \<and> hour dt < 24 \<and> 0 \<le> minute dt \<and> minute dt < 60 \<and>
     0 \<le> second dt \<and> second dt < 60 \<and> 0 \<le> microsecond dt \<and> microsecond dt < 1000000"

text \<open>\<open>datetime(year, month, day)\<close>\<close>

definition datetime_ymd :: "int \<Rightarrow> int \<Rightarrow> int \<Rightarrow> datetime" where
  "datetime_ymd y m d =
     \<lparr>year = y, month = m, day = d, hour = 0, minute = 0, second = 0, microsecond = 0\<rparr>"

subsection \<open>Daylight saving and the query timestamp\<close>

definition is_dst_local :: "tz \<Rightarrow> datetime \<Rightarrow> bool" where
  "is_dst_local Z dt \<longleftrightarrow> localtime_isdst Z (time_mktime Z dt) > 0"

text \<open>\<open>int(a / b)\<close> for a positive \<open>b\<close>: the quotient rounded towards zero.\<close>

definition trunc_div :: "int \<Rightarrow> int \<Rightarrow> int" where
  "trunc_div a b = (if 0 \<le> a then a div b else - ((- a) div b))"

definition timezone_offset_minutes :: "tz \<Rightarrow> datetime \<Rightarrow> int" where
  "timezone_offset_minutes Z dt =
     (let offset = (if is_dst_local Z dt \<and> time_daylight Z \<noteq> 0
                    then time_altzone Z else time_timezone Z)
      in trunc_div offset 60)"

definition is_dst :: "tz \<Rightarrow> datetime \<Rightarrow> bool" where
  "is_dst Z dt =
     (let jan = datetime_ymd (year dt) 1 1;
          jul = datetime_ymd (year dt) 7 1;
          max_offset = max (timezone_offset_minutes Z jan) (timezone_offset_minutes Z jul)
      in timezone_offset_minutes Z dt < max_offset)"

text \<open>\<open>now.replace(minute=minutes, second=0, microsecond=0)\<close> of the program.\<close>

definition round_half_hour :: "datetime \<Rightarrow> datetime" where
  "round_half_hour now =
     (let minutes = (if minute now < 31 then 0 else 30)
      in now\<lparr>minute := minutes, second := 0, microsecond := 0\<rparr>)"

definition get_timestamp_ms :: "tz \<Rightarrow> datetime \<Rightarrow> py_exn + int" where
  "get_timestamp_ms Z now =
     (let rounded = round_half_hour now
      in case (if is_dst Z rounded then minus_one_hour rounded else Inr rounded) of
           Inl e \<Rightarrow> Inl e
         | Inr rounded \<Rightarrow>
             (case plus_thirty_minutes rounded of
                Inl e \<Rightarrow> Inl e
              | Inr rounded \<Rightarrow> Inr (datetime_timestamp Z rounded * 1000)))"

section \<open>The river-level tool\<close>

definition fetch_sensor_values :: "lib \<Rightarrow> world \<Rightarrow> event list \<times> (py_exn + int \<times> json list)" where
  "fetch_sensor_values L W =
     (case get_timestamp_ms (local_tz W) (datetime_now W) of
        Inl e \<Rightarrow> ([], Inl e)
      | Inr ts \<Rightarrow>
          ([SensorRequest ts],
           case sensor_urlopen W ts of
             Inl e \<Rightarrow> Inl e
           | Inr (status, payload) \<Rightarrow>
               if status \<noteq> 200 then Inl RuntimeError
               else (case json_loads L payload of
                       Inl e \<Rightarrow> Inl e
                     | Inr data \<Rightarrow>
                         (case data of JArr xs \<Rightarrow> Inr (ts, xs) | _ \<Rightarrow> Inl RuntimeError))))"

definition is_integer :: "rat \<Rightarrow> bool" where
  "is_integer r \<longleftrightarrow> of_int \<lfloor>r\<rfloor> = r"

definition normalize_max_results ::
  "json \<Rightarrow> int \<Rightarrow> int \<Rightarrow> int option \<Rightarrow> py_exn + int option" where
  "normalize_max_results v minimum maximum dflt =
     (let check = (\<lambda>parsed. if parsed < minimum \<or> parsed > maximum then Inl ValueError
                            else Inr (Some parsed))
      in case v of
           JNull \<Rightarrow> Inr dflt
         | JBool b \<Rightarrow> Inl ValueError
         | JInt i \<Rightarrow> check i
         | JFloat f \<Rightarrow>
             (case f of
                Finite r \<Rightarrow> if is_integer r then check \<lfloor>r\<rfloor> else Inl ValueError
              | _ \<Rightarrow> Inl ValueError)
         | _ \<Rightarrow> Inl ValueError)"

text \<open>\<open>[item for item in data if item.get("nomestaz")]\<close>\<close>

fun named_entries :: "json list \<Rightarrow> py_exn + entry list" where
  "named_entries [] = Inr []"
| "named_entries (item # items) =
     (case item of
        JObj kvs \<Rightarrow>
          (case named_entries items of
             Inl e \<Rightarrow> Inl e
           | Inr es \<Rightarrow>
               Inr (if truthy (dict_get kvs (ustr ''nomestaz'') JNull) then kvs # es else es))
      | _ \<Rightarrow> Inl AttributeError)"

text \<open>
  What the tool answers. The text it returns is a rendering of these data: the query and the
  suggested stations when nothing matched, else the query, the request timestamp and the
  stations listed.
\<close>

datatype tool_output =
    NoStation pystr "entry list"
  | Levels int pystr "entry list"

definition livello_idrometrico ::
  "lib \<Rightarrow> world \<Rightarrow> json \<Rightarrow> json \<Rightarrow> event list \<times> (py_exn + tool_output)" where
  "livello_idrometrico L W fiume max_results =
     (case fiume of
        JStr name \<Rightarrow>
          if py_strip name = [] then ([], Inl ValueError)
          else
            (case normalize_max_results max_results 1 10 None of
               Inl e \<Rightarrow> ([], Inl e)
             | Inr max_results \<Rightarrow>
                 (case fetch_sensor_values L W of
                    (trace, Inl e) \<Rightarrow> (trace, Inl e)
                  | (trace, Inr (ts, data)) \<Rightarrow>
                      (case named_entries data of
                         Inl e \<Rightarrow> (trace, Inl e)
                       | Inr entries \<Rightarrow>
                           let retrieval_limit =
                                 min (case max_results of None \<Rightarrow> 5 | Some n \<Rightarrow> if n = 0 then 5 else n) 5;
                               (trace', matches, suggestions) =
                                 select_stations_by_query_with_retrieval L W entries fiume
                                   retrieval_limit
                           in (trace @ trace',
                               Inr (if matches = [] then NoStation name suggestions
                                    else Levels ts name
                                           (case max_results of
                                              None \<Rightarrow> matches
                                            | Some n \<Rightarrow>
                                                if n = 0 then matches
                                                else py_slice_to n matches))))))
      | _ \<Rightarrow> ([], Inl ValueError))"

section \<open>Sample instances\<close>

text \<open>
  A small library, time zone and world on which the definitions can be run: a fragment of
  the Unicode tables (the Latin letters, three accented letters and the combining diacritical
  marks), a table of the JSON documents that the sample services send, a zone with a summer
  time and a zone at +05:45.
\<close>

definition sample_decompose :: "nat \<Rightarrow> pystr" where
  "sample_decompose c =
     (if c = 200 then [69, 768] else if c = 224 then [97, 768]
      else if c = 232 then [101, 768] else [c])"

definition sample_names_text :: pystr where
  \<open>sample_names_text = ustr ''["Savio a Cesena", 7, " "]''\<close>

definition sample_names :: json where
  "sample_names = JArr [JStr (ustr ''Savio a Cesena''), JInt 7, JStr (ustr '' '')]"

definition sample_body :: pystr where
  \<open>sample_body =
     ustr ''{"output": [{"type": "message", "content": [{"type": "output_text", "text": "['' @
     [92, 34] @ ustr ''Savio a Cesena'' @ [92, 34] @ ustr '', 7, '' @ [92, 34] @ ustr '' '' @
     [92, 34] @ ustr '']"}]}]}''\<close>

definition sample_response :: json where
  "sample_response =
     JObj [(ustr ''output'', JArr [
       JObj [(ustr ''type'', JStr (ustr ''message'')),
             (ustr ''content'', JArr [
                JObj [(ustr ''type'', JStr (ustr ''output_text'')),
                      (ustr ''text'', JStr sample_names_text)]])]])]"

definition sample_entries :: "entry list" where
  "sample_entries =
     [[(ustr ''nomestaz'', JStr (ustr ''Fiume Secchia a Lama''))],
      [(ustr ''nomestaz'', JStr (ustr ''Savio a Cesena''))],
      [(ustr ''nomestaz'', JStr (ustr ''Fiume Reno a Bastia''))]]"

definition sample_payload :: pystr where
  \<open>sample_payload =
     ustr ''[{"nomestaz": "Fiume Secchia a Lama"}, {"nomestaz": "Savio a Cesena"}, '' @
     ustr ''{"nomestaz": "Fiume Reno a Bastia"}]''\<close>

definition sample_json_loads :: "pystr \<Rightarrow> py_exn + json" where
  \<open>sample_json_loads t =
     (if t = ustr ''["Stazione A", "Stazione B"]''
      then Inr (JArr [JStr (ustr ''Stazione A''), JStr (ustr ''Stazione B'')])
      else if t = sample_names_text then Inr sample_names
      else if t = sample_body then Inr sample_response
      else if t = sample_payload then Inr (JArr (map JObj sample_entries))
      else Inl JSONDecodeError)\<close>

definition sample_lib :: lib where
  "sample_lib =
     \<lparr>unicodedata_normalize_NFD = (\<lambda>s. concat (map sample_decompose s)),
      unicodedata_category_Mn = (\<lambda>c. 768 \<le> c \<and> c \<le> 879),
      str_lower = map (\<lambda>c. if 65 \<le> c \<and> c \<le> 90 then c + 32 else c),
      re_word = (\<lambda>c. is_az09 c \<or> (65 \<le> c \<and> c \<le> 90) \<or> c = 95 \<or> c = 200 \<or> c = 224 \<or> c = 232),
      re_ignorecase_eq = (\<lambda>p c. c = p \<or> (65 \<le> c \<and> c \<le> 90 \<and> c + 32 = p)),
      json_loads = sample_json_loads,
      float_repr = (\<lambda>r. if r = 0 then ustr ''0.0'' else ustr ''2.5''),
      str_repr = (\<lambda>s. [39] @ s @ [39])\<rparr>"

definition sample_isdst :: "int \<Rightarrow> int" where
  "sample_isdst t = (let doy = t mod 31556952 div 86400 in if 90 \<le> doy \<and> doy < 300 then 1 else 0)"

definition sample_tz :: tz where
  "sample_tz =
     \<lparr>time_mktime = (\<lambda>dt. civil_seconds dt - 3600),
      localtime_isdst = sample_isdst,
      time_daylight = 1,
      time_altzone = - 7200,
      time_timezone = - 3600,
      datetime_timestamp =
        (\<lambda>dt. civil_seconds dt - (if sample_isdst (civil_seconds dt - 3600) > 0 then 7200 else 3600))\<rparr>"

definition offset_0545_tz :: tz where
  "offset_0545_tz =
     \<lparr>time_mktime = (\<lambda>dt. civil_seconds dt - 20700),
      localtime_isdst = (\<lambda>t. 0),
      time_daylight = 0,
      time_altzone = - 20700,
      time_timezone = - 20700,
      datetime_timestamp = (\<lambda>dt. civil_seconds dt - 20700)\<rparr>"

definition sample_now :: datetime where
  "sample_now =
     \<lparr>year = 2024, month = 7, day = 15, hour = 10, minute = 15, second = 42,
      microsecond = 123456\<rparr>"

definition sample_world :: world where
  "sample_world =
     \<lparr>env_OPENAI_API_KEY = Some (ustr ''key''),
      env_OPENAI_VECTOR_STORE_ID = Some (ustr ''store''),
      env_OPENAI_BETA = None,
      OPENAI_BASE_URL = ustr ''https://api.openai.com/v1'',
      OPENAI_DEFAULT_MODEL = ustr ''gpt-4.1-mini'',
      openai_urlopen = (\<lambda>request. Inr (200, sample_body)),
      sensor_urlopen = (\<lambda>ts. Inr (200, sample_payload)),
      datetime_now = sample_now,
      local_tz = sample_tz\<rparr>"

section \<open>Notions used in the properties\<close>





text \<open>The positive-score entries, best first, cut to five.\<close>

definition ranked :: "lib \<Rightarrow> pystr list \<Rightarrow> entry list \<Rightarrow> entry list" where
  "ranked L tokens entries =
     take 5 (py_sort_reverse (token_score L tokens)
               (filter (\<lambda>e. 0 < token_score L tokens e) entries))"

text \<open>
  A \<open>json.loads\<close> with the digit limit of CPython 3.11 and later: an integer of more than
  4300 digits raises a \<open>ValueError\<close> that is not a \<open>JSONDecodeError\<close>.
\<close>

definition digit_limit_lib :: lib where
  "digit_limit_lib =
     sample_lib\<lparr>json_loads :=
       (\<lambda>t. if 4300 < length t \<and> list_all (\<lambda>c. 48 \<le> c \<and> c \<le> 57) t then Inl ValueError
            else sample_json_loads t)\<rparr>"

text \<open>
  \<open>m\<close> is the bracketed part of \<open>text\<close>: it runs from the first \<open>[\<close> of the text to the last
  \<open>]\<close> after it.
\<close>

definition bracketed :: "pystr \<Rightarrow> pystr \<Rightarrow> bool" where
  "bracketed text m \<longleftrightarrow>
     (\<exists>pre body post. text = pre @ m @ post \<and> m = [91] @ body @ [93] \<and>
        91 \<notin> set pre \<and> 93 \<notin> set post)"

definition sample_text :: pystr where
  \<open>sample_text = ustr ''here are results: ["Stazione A", "Stazione B"] thanks''\<close>

text \<open>Worlds in which the retrieval service cannot be reached, refuses, or answers garbage.\<close>

definition offline_world :: world where
  "offline_world = sample_world\<lparr>openai_urlopen := (\<lambda>request. Inl URLError)\<rparr>"

definition refusing_world :: world where
  "refusing_world = sample_world\<lparr>openai_urlopen := (\<lambda>request. Inr (401, ustr ''{}''))\<rparr>"

definition garbled_world :: world where
  "garbled_world = sample_world\<lparr>openai_urlopen := (\<lambda>request. Inr (200, ustr ''<html>''))\<rparr>"

definition unconfigured_world :: world where
  "unconfigured_world = sample_world\<lparr>env_OPENAI_VECTOR_STORE_ID := None\<rparr>"

text \<open>
  The validation of the tool, in the words of its contract: the query is a string that is not
  blank; the count is absent, or an integer from 1 to 10 (a float with an integral value
  counts as that integer, a boolean does not count as an integer).
\<close>

definition valid_fiume :: "json \<Rightarrow> bool" where
  "valid_fiume v = (case v of JStr name \<Rightarrow> py_strip name \<noteq> [] | _ \<Rightarrow> False)"

definition valid_max_results :: "json \<Rightarrow> bool" where
  "valid_max_results v =
     (case v of
        JNull \<Rightarrow> True
      | JInt i \<Rightarrow> 1 \<le> i \<and> i \<le> 10
      | JFloat f \<Rightarrow> (case f of Finite r \<Rightarrow> is_integer r \<and> 1 \<le> r \<and> r \<le> 10 | _ \<Rightarrow> False)
      | _ \<Rightarrow> False)"

text \<open>Days from the start of the calendar to the first of March of a year (up to a constant).\<close>

definition era_start :: "int \<Rightarrow> int" where
  "era_start y = (y div 400) * 146097 + (y mod 400) * 365 + (y mod 400) div 4 - (y mod 400) div 100"

definition sample_winter :: datetime where
  "sample_winter =
     \<lparr>year = 2024, month = 1, day = 15, hour = 10, minute = 45, second = 10,
      microsecond = 5\<rparr>"

section \<open>Normalization\<close>

lemma dropWhile_head: "dropWhile P xs = [] \<or> \<not> P (hd (dropWhile P xs))"
  by (induction xs) auto

lemma dropWhile_id: "xs = [] \<or> \<not> P (hd xs) \<Longrightarrow> dropWhile P xs = xs"
  by (cases xs) auto








lemma py_strip_ends:
  "py_strip s = [] \<or> (\<not> py_isspace (hd (py_strip s)) \<and> \<not> py_isspace (last (py_strip s)))"
proof -
  let ?u = "dropWhile py_isspace s"
  let ?w = "dropWhile py_isspace (rev ?u)"
  show ?thesis
  proof (cases "?w = []")
    case True
    then show ?thesis by (simp add: py_strip_def)
  next
    case False
    then have hw: "\<not> py_isspace (hd ?w)" using dropWhile_head[of py_isspace "rev ?u"] by blast
    have un: "?u \<noteq> []"
    proof
      assume "?u = []"
      then have "?w = []" by (simp only: rev.simps dropWhile.simps)
      with False show False by blast
    qed
    then have hu: "\<not> py_isspace (hd ?u)" using dropWhile_head[of py_isspace s] by blast
    have "rev ?u = takeWhile py_isspace (rev ?u) @ ?w" by simp
    then have "?u = rev ?w @ rev (takeWhile py_isspace (rev ?u))"
      by (metis rev_append rev_rev_ident)
    with False have "hd ?u = hd (rev ?w)" by (metis hd_append2 rev_is_Nil_conv)
    with hu have 1: "\<not> py_isspace (hd (rev ?w))" by simp
    from False hw have 2: "\<not> py_isspace (last (rev ?w))" by (simp add: last_rev)
    from 1 2 show ?thesis unfolding py_strip_def by blast
  qed
qed

lemma py_strip_fix:
  assumes "s = [] \<or> (\<not> py_isspace (hd s) \<and> \<not> py_isspace (last s))"
  shows "py_strip s = s"
proof (cases "s = []")
  case True
  then show ?thesis by (simp add: py_strip_def)
next
  case False
  with assms have h: "\<not> py_isspace (hd s)" and l: "\<not> py_isspace (last s)" by auto
  from h have 1: "dropWhile py_isspace s = s" by (simp add: dropWhile_id)
  from False l have 2: "dropWhile py_isspace (rev s) = rev s"
    by (simp add: dropWhile_id hd_rev)
  from 1 2 show ?thesis by (simp add: py_strip_def)
qed

lemma py_strip_idem: "py_strip (py_strip s) = py_strip s"
  using py_strip_fix[OF py_strip_ends[of s]] .

lemma py_strip_Nil: "py_strip [] = []"
  by (simp add: py_strip_def)

lemma normalize_text_stripped: "py_strip (normalize_text L v) = normalize_text L v"
proof (cases "v = JNull")
  case True
  then show ?thesis by (simp add: normalize_text_def py_strip_Nil)
next
  case False
  then show ?thesis by (simp add: normalize_text_def Let_def py_strip_idem)
qed






section \<open>Station matcher\<close>

lemma py_startswith_prefix: "py_startswith s p \<longleftrightarrow> prefix p s"
  by (induction s p rule: py_startswith.induct) auto

lemma py_in_sublist: "py_in needle hay \<longleftrightarrow> sublist needle hay"
  by (induction hay) (auto simp: py_startswith_prefix sublist_Cons_right)

lemma py_split_not_Nil: "py_split sep cs \<noteq> []"
  by (induction cs) (auto split: list.splits)

lemma py_split_hd: "cs \<noteq> [] \<Longrightarrow> hd cs \<noteq> sep \<Longrightarrow> hd (py_split sep cs) \<noteq> []"
  by (cases cs) (auto split: list.splits)

lemma query_tokens_Nil_iff:
  "query_tokens L query = [] \<longleftrightarrow> normalize_text L (JStr (strip_generic_words L query)) = []"
proof
  let ?c = "normalize_text L (JStr (strip_generic_words L query))"
  assume t: "query_tokens L query = []"
  show "?c = []"
  proof (rule ccontr)
    assume ne: "?c \<noteq> []"
    have "py_strip ?c = ?c" by (rule normalize_text_stripped)
    with py_strip_ends[of ?c] ne have "\<not> py_isspace (hd ?c)" by simp
    then have "hd ?c \<noteq> 32" by (auto simp: py_isspace_def)
    with ne have h: "hd (py_split 32 ?c) \<noteq> []" by (rule py_split_hd)
    have "hd (py_split 32 ?c) \<in> set (py_split 32 ?c)" using py_split_not_Nil by simp
    with h have "filter (\<lambda>token. token \<noteq> []) (py_split 32 ?c) \<noteq> []"
      by (auto simp: filter_empty_conv)
    with t show False by (simp add: query_tokens_def)
  qed
next
  assume "normalize_text L (JStr (strip_generic_words L query)) = []"
  then show "query_tokens L query = []" by (simp add: query_tokens_def)
qed

text \<open>
  Claim C1. When the stripped and normalized query has tokens, the matches are exactly the
  entries, in input order, whose normalized name contains every token as a contiguous
  substring; when it has no token, there are neither matches nor suggestions.
\<close>

theorem select_stations_by_query_matches:
  "(query_tokens L query \<noteq> [] \<longrightarrow>
      fst (select_stations_by_query L entries query) =
        filter (\<lambda>e. \<forall>token \<in> set (query_tokens L query). sublist token (nomestaz L e)) entries) \<and>
   (query_tokens L query = [] \<longrightarrow> select_stations_by_query L entries query = ([], []))"
proof (intro conjI impI)
  assume "query_tokens L query \<noteq> []"
  then have ne: "normalize_text L (JStr (strip_generic_words L query)) \<noteq> []"
    by (simp add: query_tokens_Nil_iff)
  let ?m = "filter (\<lambda>e. \<forall>token \<in> set (query_tokens L query). sublist token (nomestaz L e)) entries"
  from ne have "fst (select_stations_by_query L entries query) = (if ?m \<noteq> [] then ?m else [])"
    by (simp add: select_stations_by_query_def Let_def query_tokens_def list_all_iff py_in_sublist)
  then show "fst (select_stations_by_query L entries query) = ?m" by simp
next
  assume "query_tokens L query = []"
  then have "normalize_text L (JStr (strip_generic_words L query)) = []"
    by (simp add: query_tokens_Nil_iff)
  then show "select_stations_by_query L entries query = ([], [])"
    by (simp add: select_stations_by_query_def)
qed

lemmas text_eval =
  query_tokens_def normalize_text_def strip_generic_words_def sample_lib_def nomestaz_def
  py_str_def ustr_def match_generic_def generic_words_def word_boundary_def char_at_def
  is_az09_def py_isspace_def py_strip_def sample_decompose_def dict_get_def Let_def

lemma sample_tokens_secchia:
  "query_tokens sample_lib (JStr (ustr ''Fiume Secchia'')) = [ustr ''secchia'']"
  by (simp add: text_eval)

lemma sample_tokens_generic: "query_tokens sample_lib (JStr (ustr '' Fiume, torrente '')) = []"
  by (simp add: text_eval)

lemma sample_names:
  "map (nomestaz sample_lib) sample_entries =
     [ustr ''fiume secchia a lama'', ustr ''savio a cesena'', ustr ''fiume reno a bastia'']"
  by (simp add: text_eval sample_entries_def)

theorem select_stations_by_query_matches_witness:
  "query_tokens sample_lib (JStr (ustr ''Fiume Secchia'')) \<noteq> [] \<and>
   fst (select_stations_by_query sample_lib sample_entries (JStr (ustr ''Fiume Secchia''))) =
     [[(ustr ''nomestaz'', JStr (ustr ''Fiume Secchia a Lama''))]] \<and>
   query_tokens sample_lib (JStr (ustr '' Fiume, torrente '')) = [] \<and>
   select_stations_by_query sample_lib sample_entries (JStr (ustr '' Fiume, torrente '')) = ([], [])"
proof -
  have n: "nomestaz sample_lib [(ustr ''nomestaz'', JStr (ustr ''Fiume Secchia a Lama''))] =
             ustr ''fiume secchia a lama''"
          "nomestaz sample_lib [(ustr ''nomestaz'', JStr (ustr ''Savio a Cesena''))] =
             ustr ''savio a cesena''"
          "nomestaz sample_lib [(ustr ''nomestaz'', JStr (ustr ''Fiume Reno a Bastia''))] =
             ustr ''fiume reno a bastia''"
    using sample_names by (simp_all add: sample_entries_def)
  have "filter (\<lambda>e. \<forall>token \<in> set [ustr ''secchia'']. sublist token (nomestaz sample_lib e))
          sample_entries = [[(ustr ''nomestaz'', JStr (ustr ''Fiume Secchia a Lama''))]]"
    unfolding py_in_sublist[symmetric] by (simp add: sample_entries_def n) (simp add: ustr_def)
  with select_stations_by_query_matches[of sample_lib "JStr (ustr ''Fiume Secchia'')" sample_entries]
    select_stations_by_query_matches[of sample_lib "JStr (ustr '' Fiume, torrente '')" sample_entries]
    sample_tokens_secchia sample_tokens_generic
  show ?thesis by simp
qed

lemma insort_key_map:
  "insort_key k (g x) (map g ys) = map g (insort_key (\<lambda>y. k (g y)) x ys)"
  by (induction ys) auto

lemma sort_key_map: "sort_key k (map g xs) = map g (sort_key (\<lambda>y. k (g y)) xs)"
  by (induction xs) (auto simp: insort_key_map)

lemma py_sort_reverse_map:
  "py_sort_reverse k (map g xs) = map g (py_sort_reverse (\<lambda>y. k (g y)) xs)"
  by (simp add: py_sort_reverse_def rev_map sort_key_map)

lemma py_sort_reverse_set: "set (py_sort_reverse k xs) = set xs"
  by (simp add: py_sort_reverse_def)

lemma py_sort_reverse_sorted: "sorted_wrt (\<lambda>a b. k b \<le> k a) (py_sort_reverse k xs)"
proof -
  have "sorted (map k (sort_key k (rev xs)))" by simp
  then have "sorted_wrt (\<lambda>a b. k a \<le> k b) (sort_key k (rev xs))"
    by (simp add: sorted_wrt_map)
  then show ?thesis
    by (simp add: py_sort_reverse_def sorted_wrt_rev)
qed

lemma py_sort_reverse_stable:
  "filter (\<lambda>y. k y = c) (py_sort_reverse k xs) = filter (\<lambda>y. k y = c) xs"
  by (simp add: py_sort_reverse_def rev_filter[symmetric] sort_key_stable)

lemma filter_take_prefix: "prefix (filter P (take n xs)) (filter P xs)"
proof -
  have "filter P xs = filter P (take n xs) @ filter P (drop n xs)"
    by (metis append_take_drop_id filter_append)
  then show ?thesis by (simp add: prefix_def)
qed

lemma sorted_wrt_take: "sorted_wrt R xs \<Longrightarrow> sorted_wrt R (take n xs)"
  by (metis append_take_drop_id sorted_wrt_append)

lemma suggestions_ranked:
  assumes "normalize_text L (JStr (strip_generic_words L query)) \<noteq> []"
    and "fst (select_stations_by_query L entries query) = []"
  shows "snd (select_stations_by_query L entries query) = ranked L (query_tokens L query) entries"
proof -
  let ?tokens = "query_tokens L query"
  let ?f = "token_score L ?tokens"
  have m: "map (\<lambda>e. (?f e, e)) (filter (\<lambda>e. 0 < ?f e) entries) =
           filter (\<lambda>item. 0 < fst item) (map (\<lambda>e. (?f e, e)) entries)"
    by (simp add: filter_map comp_def)
  have "map snd (take 5 (py_sort_reverse fst
          (filter (\<lambda>item. 0 < fst item) (map (\<lambda>e. (?f e, e)) entries)))) =
        ranked L ?tokens entries"
    unfolding m[symmetric] py_sort_reverse_map ranked_def
    by (simp add: take_map comp_def)
  with assms show ?thesis
    by (simp add: select_stations_by_query_def Let_def query_tokens_def split: if_splits)
qed

lemma suggestions_cases:
  "snd (select_stations_by_query L entries query) = [] \<or>
   snd (select_stations_by_query L entries query) = ranked L (query_tokens L query) entries"
proof (cases "normalize_text L (JStr (strip_generic_words L query)) \<noteq> [] \<and>
              fst (select_stations_by_query L entries query) = []")
  case True
  then show ?thesis using suggestions_ranked by blast
next
  case False
  then have "snd (select_stations_by_query L entries query) = []"
    by (auto simp: select_stations_by_query_def Let_def split: if_splits)
  then show ?thesis by simp
qed

lemma ranked_props:
  "length (ranked L tokens entries) \<le> 5"
  "e \<in> set (ranked L tokens entries) \<Longrightarrow> 0 < token_score L tokens e \<and> e \<in> set entries"
  "sorted_wrt (\<lambda>a b. token_score L tokens b \<le> token_score L tokens a) (ranked L tokens entries)"
  "prefix (filter (\<lambda>e. token_score L tokens e = k) (ranked L tokens entries))
          (filter (\<lambda>e. token_score L tokens e = k) entries)"
proof -
  let ?f = "token_score L tokens"
  let ?s = "py_sort_reverse ?f (filter (\<lambda>e. 0 < ?f e) entries)"
  show "length (ranked L tokens entries) \<le> 5" by (simp add: ranked_def)
  show "0 < ?f e \<and> e \<in> set entries" if "e \<in> set (ranked L tokens entries)"
  proof -
    from that have "e \<in> set ?s" unfolding ranked_def by (rule in_set_takeD)
    then show ?thesis by (simp add: py_sort_reverse_set)
  qed
  show "sorted_wrt (\<lambda>a b. ?f b \<le> ?f a) (ranked L tokens entries)"
    unfolding ranked_def by (rule sorted_wrt_take[OF py_sort_reverse_sorted])
  have "prefix (filter (\<lambda>e. ?f e = k) (ranked L tokens entries)) (filter (\<lambda>e. ?f e = k) ?s)"
    unfolding ranked_def by (rule filter_take_prefix)
  also have "filter (\<lambda>e. ?f e = k) ?s = filter (\<lambda>e. ?f e = k) (filter (\<lambda>e. 0 < ?f e) entries)"
    by (rule py_sort_reverse_stable)
  also have "\<dots> = filter (\<lambda>e. ?f e = k \<and> 0 < ?f e) entries" by (simp add: conj_commute)
  finally have p: "prefix (filter (\<lambda>e. ?f e = k) (ranked L tokens entries))
                          (filter (\<lambda>e. ?f e = k \<and> 0 < ?f e) entries)" .
  show "prefix (filter (\<lambda>e. ?f e = k) (ranked L tokens entries)) (filter (\<lambda>e. ?f e = k) entries)"
  proof (cases "0 < k")
    case True
    then have "(\<lambda>e. ?f e = k \<and> 0 < ?f e) = (\<lambda>e. ?f e = k)" by auto
    with p show ?thesis by simp
  next
    case False
    then have "filter (\<lambda>e. ?f e = k \<and> 0 < ?f e) entries = []" by (auto simp: filter_empty_conv)
    with p show ?thesis by simp
  qed
qed

text \<open>
  Claim C2. The suggestions are at most five, each has a positive token-overlap score, they
  are in descending order of score, and the suggestions of any one score are an initial
  segment, in input order, of the entries of that score. When the query has tokens and no
  entry matches exactly, they are the first five of the positive-score entries after the
  stable descending sort.
\<close>

theorem suggestions_top5_stable:
  "length (snd (select_stations_by_query L entries query)) \<le> 5 \<and>
   (\<forall>e \<in> set (snd (select_stations_by_query L entries query)).
      0 < token_score L (query_tokens L query) e \<and> e \<in> set entries) \<and>
   sorted_wrt (\<lambda>a b. token_score L (query_tokens L query) b \<le> token_score L (query_tokens L query) a)
     (snd (select_stations_by_query L entries query)) \<and>
   (\<forall>k. prefix (filter (\<lambda>e. token_score L (query_tokens L query) e = k)
                   (snd (select_stations_by_query L entries query)))
                (filter (\<lambda>e. token_score L (query_tokens L query) e = k) entries)) \<and>
   (query_tokens L query \<noteq> [] \<and> fst (select_stations_by_query L entries query) = [] \<longrightarrow>
      snd (select_stations_by_query L entries query) =
        take 5 (py_sort_reverse (token_score L (query_tokens L query))
                  (filter (\<lambda>e. 0 < token_score L (query_tokens L query) e) entries)))"
proof -
  let ?s = "snd (select_stations_by_query L entries query)"
  let ?r = "ranked L (query_tokens L query) entries"
  have c: "?s = [] \<or> ?s = ?r" by (rule suggestions_cases)
  have 1: "length ?s \<le> 5" using c ranked_props(1)[of L "query_tokens L query" entries] by auto
  have 2: "\<forall>e \<in> set ?s. 0 < token_score L (query_tokens L query) e \<and> e \<in> set entries"
    using c ranked_props(2)[of _ L "query_tokens L query" entries] by auto
  have 3: "sorted_wrt (\<lambda>a b. token_score L (query_tokens L query) b \<le> token_score L (query_tokens L query) a) ?s"
    using c ranked_props(3)[of L "query_tokens L query" entries] by auto
  have 4: "\<forall>k. prefix (filter (\<lambda>e. token_score L (query_tokens L query) e = k) ?s)
                (filter (\<lambda>e. token_score L (query_tokens L query) e = k) entries)"
    using c ranked_props(4)[of L "query_tokens L query" _ entries] by auto
  have 5: "query_tokens L query \<noteq> [] \<and> fst (select_stations_by_query L entries query) = [] \<longrightarrow>
      ?s = take 5 (py_sort_reverse (token_score L (query_tokens L query))
                  (filter (\<lambda>e. 0 < token_score L (query_tokens L query) e) entries))"
    using suggestions_ranked[of L query entries] by (simp add: query_tokens_Nil_iff ranked_def)
  from 1 2 3 4 5 show ?thesis by blast
qed


lemma sample_tokens_three:
  "query_tokens sample_lib (JStr (ustr ''bastia RENO cesena'')) =
     [ustr ''bastia'', ustr ''reno'', ustr ''cesena'']"
  by (simp add: text_eval)

lemma sample_scores:
  "map (token_score sample_lib [ustr ''bastia'', ustr ''reno'', ustr ''cesena'']) sample_entries =
     [0, 1, 2]"
proof -
  have "map (token_score sample_lib [ustr ''bastia'', ustr ''reno'', ustr ''cesena'']) sample_entries =
        map (\<lambda>n. length (filter (\<lambda>token. py_in token n)
               [ustr ''bastia'', ustr ''reno'', ustr ''cesena'']))
          (map (nomestaz sample_lib) sample_entries)"
    unfolding token_score_def map_map comp_def ..
  also have "\<dots> = [0, 1, 2]"
    unfolding sample_names by (simp add: ustr_def)
  finally show ?thesis .
qed

theorem suggestions_top5_stable_witness:
  "query_tokens sample_lib (JStr (ustr ''bastia RENO cesena'')) \<noteq> [] \<and>
   fst (select_stations_by_query sample_lib sample_entries (JStr (ustr ''bastia RENO cesena''))) = [] \<and>
   snd (select_stations_by_query sample_lib sample_entries (JStr (ustr ''bastia RENO cesena''))) =
     [[(ustr ''nomestaz'', JStr (ustr ''Fiume Reno a Bastia''))],
      [(ustr ''nomestaz'', JStr (ustr ''Savio a Cesena''))]]"
proof -
  let ?q = "JStr (ustr ''bastia RENO cesena'')"
  let ?t = "[ustr ''bastia'', ustr ''reno'', ustr ''cesena'']"
  have sc: "token_score sample_lib ?t [(ustr ''nomestaz'', JStr (ustr ''Fiume Secchia a Lama''))] = 0"
           "token_score sample_lib ?t [(ustr ''nomestaz'', JStr (ustr ''Savio a Cesena''))] = 1"
           "token_score sample_lib ?t [(ustr ''nomestaz'', JStr (ustr ''Fiume Reno a Bastia''))] = 2"
    using sample_scores by (simp_all add: sample_entries_def)
  have all3: "list_all (\<lambda>token. py_in token n) ?t \<longleftrightarrow>
              length (filter (\<lambda>token. py_in token n) ?t) = 3" for n
    by auto
  have t: "query_tokens sample_lib ?q = ?t" by (rule sample_tokens_three)
  then have c: "normalize_text sample_lib (JStr (strip_generic_words sample_lib ?q)) \<noteq> []"
    using query_tokens_Nil_iff[of sample_lib ?q] by simp
  have f: "filter (\<lambda>e. list_all (\<lambda>token. py_in token (nomestaz sample_lib e)) ?t) sample_entries = []"
    unfolding all3 using sc by (simp add: sample_entries_def token_score_def)
  have m: "fst (select_stations_by_query sample_lib sample_entries ?q) = []"
    using c f t by (simp add: select_stations_by_query_def Let_def query_tokens_def)
  have r: "take 5 (py_sort_reverse (token_score sample_lib ?t)
             (filter (\<lambda>e. 0 < token_score sample_lib ?t e) sample_entries)) =
           [[(ustr ''nomestaz'', JStr (ustr ''Fiume Reno a Bastia''))],
            [(ustr ''nomestaz'', JStr (ustr ''Savio a Cesena''))]]"
    by (simp add: sample_entries_def sc py_sort_reverse_def)
  from suggestions_top5_stable[of sample_lib sample_entries ?q] m r t
  show ?thesis by simp
qed

section \<open>Retrieval fallback\<close>

lemma dropWhile_hd_fails: "dropWhile P xs = c # cs \<Longrightarrow> \<not> P c"
  using dropWhile_head[of P xs] by auto

lemma re_search_brackets_Some:
  assumes "re_search_brackets text = Some m"
  shows "bracketed text m"
proof -
  let ?P = "\<lambda>c. c \<noteq> (91::nat)" and ?Q = "\<lambda>c. c \<noteq> (93::nat)"
  from assms obtain c rest where d: "dropWhile ?P text = c # rest"
    and in93: "93 \<in> set rest" and m: "m = c # rev (dropWhile ?Q (rev rest))"
    by (auto simp: re_search_brackets_def split: list.splits if_splits)
  from d have c: "c = 91" using dropWhile_hd_fails[of "?P" "text" c rest] by simp
  let ?pre = "takeWhile ?P text"
  let ?A = "rev (dropWhile ?Q (rev rest))" and ?post = "rev (takeWhile ?Q (rev rest))"
  have t: "text = ?pre @ c # rest" using d by (metis takeWhile_dropWhile_id)
  have r: "rest = ?A @ ?post" by (metis rev_append rev_rev_ident takeWhile_dropWhile_id)
  have pre: "91 \<notin> set ?pre" by (auto dest: set_takeWhileD)
  have post: "93 \<notin> set ?post" by (auto dest: set_takeWhileD)
  from in93 have ne: "dropWhile ?Q (rev rest) \<noteq> []" by (auto simp: dropWhile_eq_Nil_conv)
  then obtain x xs where dx: "dropWhile ?Q (rev rest) = x # xs" by (cases "dropWhile ?Q (rev rest)") auto
  then have "x = 93" using dropWhile_hd_fails[of "?Q" "rev rest" x xs] by simp
  with dx have A: "?A = rev xs @ [93]" by simp
  have "text = ?pre @ m @ ?post" using t r m by simp
  moreover have "m = [91] @ rev xs @ [93]" using m c A by simp
  ultimately show ?thesis using pre post unfolding bracketed_def by blast
qed

lemma in_tl_dropWhile: "93 \<in> set (tl (dropWhile (\<lambda>c. c \<noteq> 91) (pre @ 91 # body @ 93 # post)))"
  by (induction pre) auto

lemma re_search_brackets_None:
  assumes "re_search_brackets text = None"
  shows "\<not> (\<exists>pre body post. text = pre @ [91] @ body @ [93] @ post)"
proof
  assume "\<exists>pre body post. text = pre @ [91] @ body @ [93] @ post"
  then obtain pre body post where t: "text = pre @ 91 # body @ 93 # post" by auto
  have i: "93 \<in> set (tl (dropWhile (\<lambda>c. c \<noteq> 91) text))" unfolding t by (rule in_tl_dropWhile)
  then obtain c rest where "dropWhile (\<lambda>c. c \<noteq> 91) text = c # rest"
    by (cases "dropWhile (\<lambda>c. c \<noteq> 91) text") auto
  with i assms show False by (simp add: re_search_brackets_def)
qed

lemma sample_text_brackets:
  \<open>re_search_brackets sample_text = Some (ustr ''["Stazione A", "Stazione B"]'')\<close>
  by (simp add: sample_text_def re_search_brackets_def ustr_def)

text \<open>
  Claim C5, as the code has it. The array parser first parses the whole text strictly; when
  that fails with a decode error it takes the bracketed part of the text, which runs from the
  first \<open>[\<close> to the last \<open>]\<close>, and parses that; when both fail with a decode error, or
  what was parsed is not a list, the result is the empty list. It raises exactly when
  \<open>json.loads\<close> raises something other than a decode error, on the text or on the bracketed
  part. The text \<open>here are results: ["Stazione A", "Stazione B"] thanks\<close> gives the two
  names through the bracketed part; the text \<open>[1] [2]\<close>, when it is not a document, gives
  the empty list, its bracketed part being the whole of it.
\<close>

theorem parse_json_array_outcomes:
  \<open>(text = [] \<longrightarrow> parse_json_array L text = Inr []) \<and>
   (text \<noteq> [] \<and> json_loads L text = Inr parsed \<longrightarrow>
      parse_json_array L text = Inr (as_list parsed)) \<and>
   (text \<noteq> [] \<and> json_loads L text = Inl JSONDecodeError \<and> re_search_brackets text = None \<longrightarrow>
      parse_json_array L text = Inr []) \<and>
   (text \<noteq> [] \<and> json_loads L text = Inl JSONDecodeError \<and> re_search_brackets text = Some m \<and>
    json_loads L m = Inr parsed \<longrightarrow>
      parse_json_array L text = Inr (as_list parsed)) \<and>
   (text \<noteq> [] \<and> json_loads L text = Inl JSONDecodeError \<and> re_search_brackets text = Some m \<and>
    json_loads L m = Inl JSONDecodeError \<longrightarrow>
      parse_json_array L text = Inr []) \<and>
   (parse_json_array L text = Inl e \<longleftrightarrow>
      text \<noteq> [] \<and> e \<noteq> JSONDecodeError \<and>
      (json_loads L text = Inl e \<or>
       (json_loads L text = Inl JSONDecodeError \<and>
        (\<exists>m. re_search_brackets text = Some m \<and> json_loads L m = Inl e)))) \<and>
   ((\<forall>xs. parsed \<noteq> JArr xs) \<longrightarrow> as_list parsed = []) \<and> as_list (JArr items) = items \<and>
   (\<forall>m. re_search_brackets text = Some m \<longrightarrow> bracketed text m) \<and>
   (re_search_brackets text = None \<longrightarrow>
      \<not> (\<exists>pre body post. text = pre @ [91] @ body @ [93] @ post)) \<and>
   (json_loads L sample_text = Inl JSONDecodeError \<and>
    json_loads L (ustr ''["Stazione A", "Stazione B"]'') =
      Inr (JArr [JStr (ustr ''Stazione A''), JStr (ustr ''Stazione B'')])
    \<longrightarrow> parse_json_array L sample_text =
          Inr [JStr (ustr ''Stazione A''), JStr (ustr ''Stazione B'')]) \<and>
   (json_loads L (ustr ''[1] [2]'') = Inl JSONDecodeError
    \<longrightarrow> re_search_brackets (ustr ''[1] [2]'') = Some (ustr ''[1] [2]'') \<and>
        parse_json_array L (ustr ''[1] [2]'') = Inr [])\<close>
proof (intro conjI allI impI)
  show "parse_json_array L text = Inl e \<longleftrightarrow>
      text \<noteq> [] \<and> e \<noteq> JSONDecodeError \<and>
      (json_loads L text = Inl e \<or>
       (json_loads L text = Inl JSONDecodeError \<and>
        (\<exists>m. re_search_brackets text = Some m \<and> json_loads L m = Inl e)))"
    by (auto simp: parse_json_array_def split: sum.splits option.splits if_splits)
next
  fix m assume "re_search_brackets text = Some m"
  then show "bracketed text m" by (rule re_search_brackets_Some)
next
  assume "re_search_brackets text = None"
  then show "\<not> (\<exists>pre body post. text = pre @ [91] @ body @ [93] @ post)"
    by (rule re_search_brackets_None)
next
  assume \<open>json_loads L sample_text = Inl JSONDecodeError \<and>
      json_loads L (ustr ''["Stazione A", "Stazione B"]'') =
        Inr (JArr [JStr (ustr ''Stazione A''), JStr (ustr ''Stazione B'')])\<close>
  moreover have "sample_text \<noteq> []" by (simp add: sample_text_def ustr_def)
  ultimately show "parse_json_array L sample_text =
            Inr [JStr (ustr ''Stazione A''), JStr (ustr ''Stazione B'')]"
    by (simp add: parse_json_array_def sample_text_brackets as_list_def)
next
  assume "\<forall>xs. parsed \<noteq> JArr xs"
  then show "as_list parsed = []" by (cases parsed) (simp_all add: as_list_def)
next
  show "re_search_brackets (ustr ''[1] [2]'') = Some (ustr ''[1] [2]'')"
    by (simp add: re_search_brackets_def ustr_def)
next
  assume "json_loads L (ustr ''[1] [2]'') = Inl JSONDecodeError"
  moreover have "re_search_brackets (ustr ''[1] [2]'') = Some (ustr ''[1] [2]'')"
    by (simp add: re_search_brackets_def ustr_def)
  moreover have "ustr ''[1] [2]'' \<noteq> []" by (simp add: ustr_def)
  ultimately show "parse_json_array L (ustr ''[1] [2]'') = Inr []"
    by (simp add: parse_json_array_def)
qed (simp_all add: parse_json_array_def as_list_def)

lemma sample_loads_text: "json_loads sample_lib sample_text = Inl JSONDecodeError"
  by (simp add: sample_lib_def sample_json_loads_def sample_text_def sample_names_text_def
      sample_body_def sample_payload_def ustr_def)

lemma sample_parses:
  \<open>json_loads sample_lib (ustr ''["Stazione A", "Stazione B"]'') =
     Inr (JArr [JStr (ustr ''Stazione A''), JStr (ustr ''Stazione B'')])\<close>
  "json_loads sample_lib sample_body = Inr sample_response"
  "json_loads sample_lib (ustr ''<html>'') = Inl JSONDecodeError"
  "json_loads sample_lib (ustr ''[x]'') = Inl JSONDecodeError"
  "re_search_brackets (ustr ''<html>'') = None"
  "re_search_brackets (ustr ''[x]'') = Some (ustr ''[x]'')"
  "json_loads sample_lib (ustr ''[1] [2]'') = Inl JSONDecodeError"
  by (simp_all add: sample_lib_def sample_json_loads_def sample_names_text_def sample_body_def
      sample_payload_def re_search_brackets_def ustr_def)

lemma digit_limit_loads:
  "json_loads digit_limit_lib (replicate 5000 57) = Inl ValueError"
  by (simp add: digit_limit_lib_def list_all_iff)

theorem parse_json_array_outcomes_witness:
  \<open>parse_json_array sample_lib [] = Inr [] \<and>
   parse_json_array sample_lib sample_body = Inr [] \<and>
   parse_json_array sample_lib (ustr ''<html>'') = Inr [] \<and>
   parse_json_array sample_lib (ustr ''[x]'') = Inr [] \<and>
   re_search_brackets sample_text = Some (ustr ''["Stazione A", "Stazione B"]'') \<and>
   bracketed sample_text (ustr ''["Stazione A", "Stazione B"]'') \<and>
   parse_json_array sample_lib sample_text =
     Inr [JStr (ustr ''Stazione A''), JStr (ustr ''Stazione B'')] \<and>
   parse_json_array sample_lib (ustr ''[1] [2]'') = Inr [] \<and>
   parse_json_array digit_limit_lib (replicate 5000 57) = Inl ValueError\<close>
proof -
  have ne: "sample_body \<noteq> []" "ustr ''<html>'' \<noteq> []" "ustr ''[x]'' \<noteq> []"
    "replicate 5000 (57::nat) \<noteq> []"
    by (simp_all add: sample_body_def ustr_def)
  have nl: "\<forall>xs. sample_response \<noteq> JArr xs" by (simp add: sample_response_def)
  have a: "parse_json_array sample_lib [] = Inr []"
    using parse_json_array_outcomes[of "[]" sample_lib] by blast
  have "parse_json_array sample_lib sample_body = Inr (as_list sample_response)"
    using parse_json_array_outcomes[of sample_body sample_lib sample_response] ne sample_parses
    by blast
  moreover have "as_list sample_response = []"
    using parse_json_array_outcomes[of "[]" sample_lib sample_response] nl by blast
  ultimately have b: "parse_json_array sample_lib sample_body = Inr []" by simp
  have c: "parse_json_array sample_lib (ustr ''<html>'') = Inr []"
    using parse_json_array_outcomes[of "ustr ''<html>''" sample_lib] ne sample_parses by blast
  have d: "parse_json_array sample_lib (ustr ''[x]'') = Inr []"
    using parse_json_array_outcomes[of "ustr ''[x]''" sample_lib _ "ustr ''[x]''"] ne
      sample_parses by blast
  have e: \<open>bracketed sample_text (ustr ''["Stazione A", "Stazione B"]'')\<close>
    using parse_json_array_outcomes[of sample_text sample_lib] sample_text_brackets by blast
  have f: \<open>parse_json_array sample_lib sample_text =
     Inr [JStr (ustr ''Stazione A''), JStr (ustr ''Stazione B'')]\<close>
    using parse_json_array_outcomes[of sample_text sample_lib] sample_loads_text sample_parses(1)
    by blast
  have g: "parse_json_array digit_limit_lib (replicate 5000 57) = Inl ValueError"
    using parse_json_array_outcomes[of "replicate 5000 57" digit_limit_lib _ _ ValueError] ne(4)
      digit_limit_loads by blast
  have h: "parse_json_array sample_lib (ustr ''[1] [2]'') = Inr []"
    using parse_json_array_outcomes[of "[]" sample_lib] sample_parses(7) by blast
  from a b c d e f g h sample_text_brackets show ?thesis by blast
qed

text \<open>
  With a \<open>json.loads\<close> that refuses an integer of more than 4300 digits with a
  \<open>ValueError\<close>, the array parser raises on a text of 5000 digits.
\<close>

theorem parse_json_array_raises_counterexample:
  "parse_json_array digit_limit_lib (replicate 5000 57) = Inl ValueError"
  using digit_limit_loads by (simp add: parse_json_array_def)

lemma digits_chars: "c \<in> set (digits n) \<Longrightarrow> 48 \<le> c \<and> c \<le> 57"
proof (induction n arbitrary: c rule: digits.induct)
  case (1 n)
  from 1(2) have "c \<in> set (if n < 10 then [48 + n] else digits (n div 10) @ [48 + n mod 10])"
    by (subst (asm) digits.simps)
  then show ?case
  proof (cases "n < 10")
    case True
    with \<open>c \<in> set (if n < 10 then [48 + n] else digits (n div 10) @ [48 + n mod 10])\<close>
    show ?thesis by simp
  next
    case False
    with \<open>c \<in> set (if n < 10 then [48 + n] else digits (n div 10) @ [48 + n mod 10])\<close>
    have "c \<in> set (digits (n div 10)) \<or> c = 48 + n mod 10" by auto
    moreover have "n mod 10 < 10" by simp
    ultimately show ?thesis using 1(1)[OF False] by auto
  qed
qed

lemma digits_not_Nil: "digits n \<noteq> []"
  by (subst digits.simps) simp

lemma int_str_chars: "c \<in> set (int_str i) \<Longrightarrow> \<not> py_isspace c"
  by (auto simp: int_str_def py_isspace_def dest!: digits_chars split: if_splits)

lemma int_str_not_Nil: "int_str i \<noteq> []"
  by (simp add: int_str_def digits_not_Nil)

lemma py_strip_no_space: "\<forall>c \<in> set s. \<not> py_isspace c \<Longrightarrow> py_strip s = s"
  by (rule py_strip_fix) (cases s, auto)

lemma py_strip_int_str: "py_strip (int_str i) = int_str i"
  by (rule py_strip_no_space) (auto dest: int_str_chars)

lemma py_strip_delimited:
  "\<not> py_isspace a \<Longrightarrow> \<not> py_isspace b \<Longrightarrow> py_strip ([a] @ s @ [b]) = [a] @ s @ [b]"
  by (rule py_strip_fix) simp

lemma kept_as_repr:
  "py_strip (py_str L JNull) = ustr ''None''"
  "py_strip (py_str L (JBool True)) = ustr ''True''"
  "py_strip (py_str L (JBool False)) = ustr ''False''"
  "py_strip (py_str L (JInt i)) = int_str i"
  "py_strip (py_str L (JArr xs)) = py_repr L (JArr xs)"
  "py_strip (py_str L (JObj kvs)) = py_repr L (JObj kvs)"
proof -
  show "py_strip (py_str L JNull) = ustr ''None''"
    by (simp add: py_str_def ustr_def py_strip_def py_isspace_def)
  show "py_strip (py_str L (JBool True)) = ustr ''True''"
    by (simp add: py_str_def ustr_def py_strip_def py_isspace_def)
  show "py_strip (py_str L (JBool False)) = ustr ''False''"
    by (simp add: py_str_def ustr_def py_strip_def py_isspace_def)
  show "py_strip (py_str L (JInt i)) = int_str i"
    by (simp add: py_str_def py_strip_int_str)
  have b: "ustr ''['' = [91]" "ustr '']'' = [93]" "ustr ''{'' = [123]" "ustr ''}'' = [125]"
    by (simp_all add: ustr_def)
  show "py_strip (py_str L (JArr xs)) = py_repr L (JArr xs)"
    unfolding py_str_def json.case py_repr.simps b
    by (rule py_strip_delimited) (simp_all add: py_isspace_def)
  show "py_strip (py_str L (JObj kvs)) = py_repr L (JObj kvs)"
    unfolding py_str_def json.case py_repr.simps b
    by (rule py_strip_delimited) (simp_all add: py_isspace_def)
qed

lemma repr_not_Nil:
  "py_repr L (JArr xs) \<noteq> []" "py_repr L (JObj kvs) \<noteq> []"
  by (simp_all add: ustr_def)

text \<open>
  Claim C10. When the response parses into an array, the names returned are the items, each
  converted with \<open>str\<close> and stripped, without those that are empty after stripping, cut
  with the slice \<open>[:max_results]\<close> (the first \<open>max_results\<close> of them for a count that is
  not negative). An item that is not a string is kept as its representation: \<open>None\<close>, a
  boolean, an integer, a list and a dict all have a representation that stripping leaves
  unchanged and that is not empty.
\<close>

theorem retrieved_names_keep_non_strings:
  "is_retrieval_enabled W \<Longrightarrow>
   snd (openai_create_response L W (retrieval_payload L W query max_results)) = Inr response \<Longrightarrow>
   extract_output_text response = Inr output_text \<Longrightarrow>
   parse_json_array L output_text = Inr items \<Longrightarrow>
     snd (retrieve_station_names L W query max_results) =
       Inr (py_slice_to max_results
              (filter (\<lambda>name. name \<noteq> []) (map (\<lambda>item. py_strip (py_str L item)) items))) \<and>
     (0 \<le> max_results \<longrightarrow>
        snd (retrieve_station_names L W query max_results) =
          Inr (take (nat max_results)
                 (filter (\<lambda>name. name \<noteq> []) (map (\<lambda>item. py_strip (py_str L item)) items)))) \<and>
     py_strip (py_str L JNull) = ustr ''None'' \<and>
     py_strip (py_str L (JBool True)) = ustr ''True'' \<and>
     py_strip (py_str L (JBool False)) = ustr ''False'' \<and>
     py_strip (py_str L (JInt i)) = int_str i \<and> int_str i \<noteq> [] \<and>
     py_strip (py_str L (JArr xs)) = py_repr L (JArr xs) \<and> py_repr L (JArr xs) \<noteq> [] \<and>
     py_strip (py_str L (JObj kvs)) = py_repr L (JObj kvs) \<and> py_repr L (JObj kvs) \<noteq> []"
proof -
  assume a: "is_retrieval_enabled W"
    "snd (openai_create_response L W (retrieval_payload L W query max_results)) = Inr response"
    "extract_output_text response = Inr output_text"
    "parse_json_array L output_text = Inr items"
  then have r: "snd (retrieve_station_names L W query max_results) =
       Inr (py_slice_to max_results
              (filter (\<lambda>name. name \<noteq> []) (map (\<lambda>item. py_strip (py_str L item)) items)))"
    by (simp add: retrieve_station_names_def split_def Let_def)
  then have t: "0 \<le> max_results \<longrightarrow>
        snd (retrieve_station_names L W query max_results) =
          Inr (take (nat max_results)
                 (filter (\<lambda>name. name \<noteq> []) (map (\<lambda>item. py_strip (py_str L item)) items)))"
    by (simp add: py_slice_to_def)
  from r t kept_as_repr[of L] int_str_not_Nil repr_not_Nil[of L] show ?thesis by blast
qed


lemmas world_eval =
  sample_world_def sample_lib_def sample_json_loads_def sample_body_def sample_names_text_def
  sample_payload_def sample_response_def sample_names_def
  is_retrieval_enabled_def env_set_def openai_create_response_def openai_request_def
  retrieval_payload_def extract_output_text_def content_parts_def truthy_def dict_get_def
  parse_json_array_def as_list_def py_slice_to_def py_str_def py_strip_def py_isspace_def
  ustr_def Let_def

lemma sample_retrieval_steps:
  "is_retrieval_enabled sample_world"
  "snd (openai_create_response sample_lib sample_world
         (retrieval_payload sample_lib sample_world (JStr (ustr ''cesenatico'')) 5)) =
     Inr sample_response"
  "extract_output_text sample_response = Inr sample_names_text"
  "parse_json_array sample_lib sample_names_text =
     Inr [JStr (ustr ''Savio a Cesena''), JInt 7, JStr (ustr '' '')]"
  by (simp_all add: world_eval)

theorem retrieved_names_keep_non_strings_witness:
  "is_retrieval_enabled sample_world \<and>
   parse_json_array sample_lib sample_names_text =
     Inr [JStr (ustr ''Savio a Cesena''), JInt 7, JStr (ustr '' '')] \<and>
   snd (retrieve_station_names sample_lib sample_world (JStr (ustr ''cesenatico'')) 5) =
     Inr [ustr ''Savio a Cesena'', ustr ''7'']"
proof -
  have e: "py_slice_to 5 (filter (\<lambda>name. name \<noteq> [])
          (map (\<lambda>item. py_strip (py_str sample_lib item))
             [JStr (ustr ''Savio a Cesena''), JInt 7, JStr (ustr '' '')])) =
        [ustr ''Savio a Cesena'', ustr ''7'']"
    by (simp add: py_slice_to_def py_str_def py_strip_def py_isspace_def ustr_def int_str_def
        digits.simps)
  note r = retrieved_names_keep_non_strings[OF sample_retrieval_steps, of 0 "[]" "[]",
      THEN conjunct1]
  show ?thesis using r[unfolded e] sample_retrieval_steps(1,4) by simp
qed

text \<open>
  Claim C4, as the code has it. A failure during retrieval is absorbed by the orchestrator:
  whenever the retrieval component raises, the orchestrator returns the local result. The
  component itself propagates the failure: a transport error, a status other than 200 and a
  body that is not JSON each leave it as an exception.
\<close>

theorem retrieval_failures_absorbed_by_orchestrator:
  "(snd (retrieve_station_names L W query max_results) = Inl e \<longrightarrow>
      snd (select_stations_by_query_with_retrieval L W entries query max_results) =
        select_stations_by_query L entries query) \<and>
   (is_retrieval_enabled W \<and>
    openai_urlopen W (openai_request W (retrieval_payload L W query max_results)) = Inl e \<longrightarrow>
      snd (retrieve_station_names L W query max_results) = Inl e) \<and>
   (is_retrieval_enabled W \<and> status \<noteq> 200 \<and>
    openai_urlopen W (openai_request W (retrieval_payload L W query max_results)) =
      Inr (status, body) \<longrightarrow>
      snd (retrieve_station_names L W query max_results) = Inl RuntimeError) \<and>
   (is_retrieval_enabled W \<and> body \<noteq> [] \<and> json_loads L body = Inl e \<and>
    openai_urlopen W (openai_request W (retrieval_payload L W query max_results)) =
      Inr (200, body) \<longrightarrow>
      snd (retrieve_station_names L W query max_results) = Inl e)"
proof (intro conjI impI)
  assume "snd (retrieve_station_names L W query max_results) = Inl e"
  then show "snd (select_stations_by_query_with_retrieval L W entries query max_results) =
        select_stations_by_query L entries query"
    by (auto simp: select_stations_by_query_with_retrieval_def split_def Let_def prod_eq_iff)
next
  assume "is_retrieval_enabled W \<and>
    openai_urlopen W (openai_request W (retrieval_payload L W query max_results)) = Inl e"
  then show "snd (retrieve_station_names L W query max_results) = Inl e"
    by (simp add: retrieve_station_names_def openai_create_response_def is_retrieval_enabled_def
        split_def Let_def)
next
  assume "is_retrieval_enabled W \<and> status \<noteq> 200 \<and>
    openai_urlopen W (openai_request W (retrieval_payload L W query max_results)) =
      Inr (status, body)"
  then show "snd (retrieve_station_names L W query max_results) = Inl RuntimeError"
    by (simp add: retrieve_station_names_def openai_create_response_def is_retrieval_enabled_def
        split_def Let_def)
next
  assume "is_retrieval_enabled W \<and> body \<noteq> [] \<and> json_loads L body = Inl e \<and>
    openai_urlopen W (openai_request W (retrieval_payload L W query max_results)) =
      Inr (200, body)"
  then show "snd (retrieve_station_names L W query max_results) = Inl e"
    by (simp add: retrieve_station_names_def openai_create_response_def is_retrieval_enabled_def
        split_def Let_def)
qed


lemma failing_worlds:
  "is_retrieval_enabled offline_world"
  "openai_urlopen offline_world r = Inl URLError"
  "is_retrieval_enabled refusing_world"
  "openai_urlopen refusing_world r = Inr (401, ustr ''{}'')"
  "is_retrieval_enabled garbled_world"
  "openai_urlopen garbled_world r = Inr (200, ustr ''<html>'')"
  "json_loads sample_lib (ustr ''<html>'') = Inl JSONDecodeError"
  by (simp_all add: offline_world_def refusing_world_def garbled_world_def world_eval)

theorem retrieval_failures_absorbed_by_orchestrator_witness:
  "snd (retrieve_station_names sample_lib offline_world (JStr (ustr ''cesenatico'')) 5) =
     Inl URLError \<and>
   snd (select_stations_by_query_with_retrieval sample_lib offline_world sample_entries
          (JStr (ustr ''cesenatico'')) 5) =
     select_stations_by_query sample_lib sample_entries (JStr (ustr ''cesenatico'')) \<and>
   snd (retrieve_station_names sample_lib refusing_world (JStr (ustr ''cesenatico'')) 5) =
     Inl RuntimeError \<and>
   snd (retrieve_station_names sample_lib garbled_world (JStr (ustr ''cesenatico'')) 5) =
     Inl JSONDecodeError"
proof -
  let ?q = "JStr (ustr ''cesenatico'')"
  note t1 = retrieval_failures_absorbed_by_orchestrator[where L = sample_lib and W = offline_world
      and query = ?q and max_results = 5 and e = URLError and entries = sample_entries]
  from t1 failing_worlds(1,2)
  have a: "snd (retrieve_station_names sample_lib offline_world ?q 5) = Inl URLError" by blast
  with t1 have b: "snd (select_stations_by_query_with_retrieval sample_lib offline_world
      sample_entries ?q 5) = select_stations_by_query sample_lib sample_entries ?q"
    by blast
  note t2 = retrieval_failures_absorbed_by_orchestrator[where L = sample_lib
      and W = refusing_world and query = ?q and max_results = 5 and status = 401
      and body = "ustr ''{}''"]
  have "(401::int) \<noteq> 200" by simp
  with t2 failing_worlds(3,4)
  have c: "snd (retrieve_station_names sample_lib refusing_world ?q 5) = Inl RuntimeError"
    by blast
  note t3 = retrieval_failures_absorbed_by_orchestrator[where L = sample_lib
      and W = garbled_world and query = ?q and max_results = 5 and e = JSONDecodeError
      and body = "ustr ''<html>''"]
  have "ustr ''<html>'' \<noteq> []" by (simp add: ustr_def)
  with t3 failing_worlds(5,6,7)
  have d: "snd (retrieve_station_names sample_lib garbled_world ?q 5) = Inl JSONDecodeError"
    by blast
  from a b c d show ?thesis by blast
qed

text \<open>
  With the service unreachable, the retrieval component itself does not return an empty
  list: the error of the transport leaves it.
\<close>

theorem retrieval_failure_propagates_counterexample:
  "snd (retrieve_station_names sample_lib offline_world (JStr (ustr ''cesenatico'')) 5) = Inl URLError \<and>
   snd (retrieve_station_names sample_lib offline_world (JStr (ustr ''cesenatico'')) 5) \<noteq> Inr []"
  by (simp add: retrieve_station_names_def offline_world_def world_eval)

text \<open>
  Claim C3. When the local matcher has matches, or one of the two secrets is absent or empty,
  the orchestrator returns the local result and sends no request. In every case its result
  is the local one, or the local matches were empty and the result has matches, taken from
  the entries whose normalized name is the normalized form of a retrieved name, and no
  suggestions.
\<close>

theorem retrieval_only_fills_empty_matches:
  "(fst (select_stations_by_query L entries query) \<noteq> [] \<or>
    \<not> env_set (env_OPENAI_API_KEY W) \<or> \<not> env_set (env_OPENAI_VECTOR_STORE_ID W) \<longrightarrow>
      select_stations_by_query_with_retrieval L W entries query max_results =
        ([], select_stations_by_query L entries query)) \<and>
   (snd (select_stations_by_query_with_retrieval L W entries query max_results) =
      select_stations_by_query L entries query \<or>
    (fst (select_stations_by_query L entries query) = [] \<and>
     fst (snd (select_stations_by_query_with_retrieval L W entries query max_results)) \<noteq> [] \<and>
     snd (snd (select_stations_by_query_with_retrieval L W entries query max_results)) = [] \<and>
     (\<exists>names. snd (retrieve_station_names L W query max_results) = Inr names \<and>
        fst (snd (select_stations_by_query_with_retrieval L W entries query max_results)) =
          filter (\<lambda>e. nomestaz L e \<in> set (map (\<lambda>name. normalize_text L (JStr name)) names))
            entries)))"
proof (intro conjI impI)
  assume "fst (select_stations_by_query L entries query) \<noteq> [] \<or>
    \<not> env_set (env_OPENAI_API_KEY W) \<or> \<not> env_set (env_OPENAI_VECTOR_STORE_ID W)"
  then show "select_stations_by_query_with_retrieval L W entries query max_results =
        ([], select_stations_by_query L entries query)"
    by (auto simp: select_stations_by_query_with_retrieval_def split_def Let_def
        is_retrieval_enabled_def)
next
  obtain lm ls where l: "select_stations_by_query L entries query = (lm, ls)"
    by (cases "select_stations_by_query L entries query")
  obtain tr r where r: "retrieve_station_names L W query max_results = (tr, r)"
    by (cases "retrieve_station_names L W query max_results")
  show "snd (select_stations_by_query_with_retrieval L W entries query max_results) =
      select_stations_by_query L entries query \<or>
    (fst (select_stations_by_query L entries query) = [] \<and>
     fst (snd (select_stations_by_query_with_retrieval L W entries query max_results)) \<noteq> [] \<and>
     snd (snd (select_stations_by_query_with_retrieval L W entries query max_results)) = [] \<and>
     (\<exists>names. snd (retrieve_station_names L W query max_results) = Inr names \<and>
        fst (snd (select_stations_by_query_with_retrieval L W entries query max_results)) =
          filter (\<lambda>e. nomestaz L e \<in> set (map (\<lambda>name. normalize_text L (JStr name)) names))
            entries))"
    unfolding select_stations_by_query_with_retrieval_def l r
    by (cases r) (auto simp: Let_def)
qed

lemma sample_retrieved:
  "snd (retrieve_station_names sample_lib sample_world (JStr (ustr ''cesenatico'')) 5) =
     Inr [ustr ''Savio a Cesena'', ustr ''7'']"
  by (simp add: retrieve_station_names_def world_eval int_str_def digits.simps split_def)

lemma sample_normalized:
  "normalize_text sample_lib (JStr (ustr ''Savio a Cesena'')) = ustr ''savio a cesena''"
  "normalize_text sample_lib (JStr (ustr ''7'')) = ustr ''7''"
  by (simp_all add: text_eval)

lemma sample_local:
  "select_stations_by_query sample_lib sample_entries (JStr (ustr ''cesenatico'')) = ([], [])"
  "select_stations_by_query sample_lib sample_entries (JStr (ustr ''secchia'')) =
     ([[(ustr ''nomestaz'', JStr (ustr ''Fiume Secchia a Lama''))]], [])"
  by (simp_all add: select_stations_by_query_def text_eval sample_entries_def token_score_def
      py_sort_reverse_def)

theorem retrieval_only_fills_empty_matches_witness:
  "fst (select_stations_by_query sample_lib sample_entries (JStr (ustr ''secchia''))) \<noteq> [] \<and>
   select_stations_by_query_with_retrieval sample_lib sample_world sample_entries
     (JStr (ustr ''secchia'')) 5 =
     ([], [[(ustr ''nomestaz'', JStr (ustr ''Fiume Secchia a Lama''))]], []) \<and>
   \<not> env_set (env_OPENAI_VECTOR_STORE_ID unconfigured_world) \<and>
   select_stations_by_query_with_retrieval sample_lib unconfigured_world sample_entries
     (JStr (ustr ''cesenatico'')) 5 = ([], [], []) \<and>
   snd (select_stations_by_query_with_retrieval sample_lib sample_world sample_entries
     (JStr (ustr ''cesenatico'')) 5) =
     ([[(ustr ''nomestaz'', JStr (ustr ''Savio a Cesena''))]], [])"
proof -
  have u: "\<not> env_set (env_OPENAI_VECTOR_STORE_ID unconfigured_world)"
    by (simp add: unconfigured_world_def sample_world_def env_set_def)
  note a = retrieval_only_fills_empty_matches[of sample_lib sample_entries
      "JStr (ustr ''secchia'')" sample_world 5, THEN conjunct1]
  note b = retrieval_only_fills_empty_matches[of sample_lib sample_entries
      "JStr (ustr ''cesenatico'')" unconfigured_world 5, THEN conjunct1]
  have n: "nomestaz sample_lib [(ustr ''nomestaz'', JStr (ustr ''Fiume Secchia a Lama''))] =
             ustr ''fiume secchia a lama''"
          "nomestaz sample_lib [(ustr ''nomestaz'', JStr (ustr ''Savio a Cesena''))] =
             ustr ''savio a cesena''"
          "nomestaz sample_lib [(ustr ''nomestaz'', JStr (ustr ''Fiume Reno a Bastia''))] =
             ustr ''fiume reno a bastia''"
    using sample_names by (simp_all add: sample_entries_def)
  have f: "filter (\<lambda>e. nomestaz sample_lib e = ustr ''savio a cesena'' \<or>
                        nomestaz sample_lib e = ustr ''7'')
             sample_entries = [[(ustr ''nomestaz'', JStr (ustr ''Savio a Cesena''))]]"
    by (simp add: sample_entries_def n) (simp add: ustr_def)
  have c: "snd (select_stations_by_query_with_retrieval sample_lib sample_world sample_entries
     (JStr (ustr ''cesenatico'')) 5) =
     ([[(ustr ''nomestaz'', JStr (ustr ''Savio a Cesena''))]], [])"
    by (simp add: select_stations_by_query_with_retrieval_def sample_local split_def
        sample_retrieval_steps(1) sample_retrieved sample_normalized f Let_def)
  from a b c u sample_local show ?thesis by simp
qed

section \<open>Timestamp scheduler\<close>

lemma pred_div_mod:
  fixes r n :: int
  assumes n: "0 < n"
  shows "(r - 1) div n = (if r mod n = 0 then r div n - 1 else r div n)"
    and "(r - 1) mod n = (if r mod n = 0 then n - 1 else r mod n - 1)"
proof -
  have r: "r = n * (r div n) + r mod n" by simp
  have b: "0 \<le> r mod n" "r mod n < n" using n by simp_all
  show "(r - 1) div n = (if r mod n = 0 then r div n - 1 else r div n)"
  proof (cases "r mod n = 0")
    case True
    have "r - 1 = n * (r div n - 1) + (n - 1)" using r True by (simp add: algebra_simps)
    from int_div_pos_eq[OF this] n True show ?thesis by simp
  next
    case False
    have "r - 1 = n * (r div n) + (r mod n - 1)" using r by simp
    from int_div_pos_eq[OF this] b False show ?thesis by simp
  qed
  show "(r - 1) mod n = (if r mod n = 0 then n - 1 else r mod n - 1)"
  proof (cases "r mod n = 0")
    case True
    have "r - 1 = n * (r div n - 1) + (n - 1)" using r True by (simp add: algebra_simps)
    from int_mod_pos_eq[OF this] n True show ?thesis by simp
  next
    case False
    have "r - 1 = n * (r div n) + (r mod n - 1)" using r by simp
    from int_mod_pos_eq[OF this] b False show ?thesis by simp
  qed
qed

lemma year_start_step: "era_start (y - 1) + (if is_leap y then 366 else 365) = era_start y"
proof -
  define q where "q = y div 400"
  define r where "r = y mod 400"
  have r: "0 \<le> r" "r < 400" by (simp_all add: r_def)
  have m4: "y mod 4 = r mod 4" unfolding r_def by (simp add: mod_mod_cancel)
  have m100: "y mod 100 = r mod 100" unfolding r_def by (simp add: mod_mod_cancel)
  have c: "r mod 100 = 0 \<Longrightarrow> r mod 4 = 0"
    using mod_mod_cancel[of 4 100 r] by simp
  have d: "(y - 1) div 400 = (if r = 0 then q - 1 else q)"
    and m: "(y - 1) mod 400 = (if r = 0 then 399 else r - 1)"
    using pred_div_mod[of 400 y] by (simp_all add: q_def r_def)
  show ?thesis
  proof (cases "r = 0")
    case True
    then have l: "is_leap y" using m4 by (simp add: is_leap_def r_def)
    show ?thesis unfolding era_start_def d m using l True
      by (simp add: q_def[symmetric] r_def[symmetric] algebra_simps)
  next
    case False
    have l: "is_leap y \<longleftrightarrow> r mod 4 = 0 \<and> r mod 100 \<noteq> 0"
      using False m4 m100 by (simp add: is_leap_def r_def)
    have a: "(r - 1) div 4 = (if r mod 4 = 0 then r div 4 - 1 else r div 4)"
      using pred_div_mod(1)[of 4 r] by simp
    have b: "(r - 1) div 100 = (if r mod 100 = 0 then r div 100 - 1 else r div 100)"
      using pred_div_mod(1)[of 100 r] by simp
    show ?thesis unfolding era_start_def d m l using False c
      by (auto simp: a b q_def[symmetric] r_def[symmetric] algebra_simps)
  qed
qed


lemma days_from_civil_alt:
  "days_from_civil y m d =
     era_start (if m \<le> 2 then y - 1 else y) +
     (153 * (if m > 2 then m - 3 else m + 9) + 2) div 5 + d - 1 - 719468"
  unfolding days_from_civil_def era_start_def Let_def minus_div_mult_eq_mod by simp

lemma days_month_start:
  fixes m :: int
  assumes "1 < m" "m \<le> 12"
  shows "days_from_civil y (m - 1) (days_in_month y (m - 1)) + 1 = days_from_civil y m 1"
proof -
  from assms have "m = 2 \<or> m = 3 \<or> m = 4 \<or> m = 5 \<or> m = 6 \<or> m = 7 \<or> m = 8 \<or> m = 9 \<or>
         m = 10 \<or> m = 11 \<or> m = 12" by arith
  then show ?thesis
  proof (elim disjE)
    assume "m = 3"
    then show ?thesis
      using year_start_step[of y] by (auto simp: days_from_civil_alt days_in_month_def)
  qed (simp_all add: days_from_civil_alt days_in_month_def)
qed

lemma days_year_start: "days_from_civil (y - 1) 12 31 + 1 = days_from_civil y 1 1"
  by (simp add: days_from_civil_alt)

lemma days_prev_day:
  assumes "1 \<le> month dt" "month dt \<le> 12" "1 \<le> day dt" "prev_day dt = Inr p"
  shows "days_from_civil (year p) (month p) (day p) =
         days_from_civil (year dt) (month dt) (day dt) - 1"
proof (cases "1 < day dt")
  case True
  with assms(4) have "p = dt\<lparr>day := day dt - 1\<rparr>" by (simp add: prev_day_def)
  then show ?thesis by (simp add: days_from_civil_alt)
next
  case False
  with assms(3) have d: "day dt = 1" by simp
  show ?thesis
  proof (cases "1 < month dt")
    case True
    with d assms(4)
    have "p = dt\<lparr>month := month dt - 1, day := days_in_month (year dt) (month dt - 1)\<rparr>"
      by (simp add: prev_day_def)
    then show ?thesis using days_month_start[OF True assms(2), of "year dt"] d by simp
  next
    case False
    with assms(1) have m: "month dt = 1" by simp
    with d assms(4) have "p = dt\<lparr>year := year dt - 1, month := 12, day := 31\<rparr>"
      by (auto simp: prev_day_def split: if_splits)
    then show ?thesis using days_year_start[of "year dt"] d m by simp
  qed
qed

lemma days_next_day:
  assumes "1 \<le> month dt" "month dt \<le> 12" "day dt \<le> days_in_month (year dt) (month dt)"
    "next_day dt = Inr p"
  shows "days_from_civil (year p) (month p) (day p) =
         days_from_civil (year dt) (month dt) (day dt) + 1"
proof (cases "day dt < days_in_month (year dt) (month dt)")
  case True
  with assms(4) have "p = dt\<lparr>day := day dt + 1\<rparr>" by (simp add: next_day_def)
  then show ?thesis by (simp add: days_from_civil_alt)
next
  case False
  with assms(3) have d: "day dt = days_in_month (year dt) (month dt)" by simp
  show ?thesis
  proof (cases "month dt < 12")
    case True
    with d assms(4) have p: "p = dt\<lparr>month := month dt + 1, day := 1\<rparr>"
      by (simp add: next_day_def)
    have "1 < month dt + 1" "month dt + 1 \<le> 12" using assms(1) True by simp_all
    from days_month_start[OF this, of "year dt"] p d show ?thesis by simp
  next
    case False
    with assms(2) have m: "month dt = 12" by simp
    with d assms(4) have "p = dt\<lparr>year := year dt + 1, month := 1, day := 1\<rparr>"
      by (auto simp: next_day_def split: if_splits)
    then show ?thesis using days_year_start[of "year dt + 1"] d m
      by (simp add: days_in_month_def)
  qed
qed

lemma civil_seconds_minus_one_hour:
  assumes "valid_datetime dt" "minus_one_hour dt = Inr r"
  shows "civil_seconds r = civil_seconds dt - 3600"
proof (cases "0 < hour dt")
  case True
  with assms(2) have "r = dt\<lparr>hour := hour dt - 1\<rparr>" by (simp add: minus_one_hour_def)
  then show ?thesis by (simp add: civil_seconds_def)
next
  case False
  with assms(1) have h: "hour dt = 0" by (simp add: valid_datetime_def)
  from False assms(2) obtain p where p: "prev_day dt = Inr p" and r: "r = p\<lparr>hour := 23\<rparr>"
    by (auto simp: minus_one_hour_def split: sum.splits)
  from assms(1) have v: "1 \<le> month dt" "month dt \<le> 12" "1 \<le> day dt"
    by (simp_all add: valid_datetime_def)
  have t: "minute p = minute dt" "second p = second dt"
    using p by (auto simp: prev_day_def split: if_splits)
  from days_prev_day[OF v p] r h t show ?thesis by (simp add: civil_seconds_def)
qed

lemma civil_seconds_plus_thirty_minutes:
  assumes "valid_datetime dt" "plus_thirty_minutes dt = Inr r"
  shows "civil_seconds r = civil_seconds dt + 1800"
proof -
  from assms(1) have v: "1 \<le> month dt" "month dt \<le> 12"
    "day dt \<le> days_in_month (year dt) (month dt)" "hour dt < 24"
    by (simp_all add: valid_datetime_def)
  consider "minute dt < 30" | "\<not> minute dt < 30" "hour dt < 23"
    | "\<not> minute dt < 30" "\<not> hour dt < 23" by blast
  then show ?thesis
  proof cases
    case 1
    with assms(2) have "r = dt\<lparr>minute := minute dt + 30\<rparr>" by (simp add: plus_thirty_minutes_def)
    then show ?thesis by (simp add: civil_seconds_def)
  next
    case 2
    with assms(2) have "r = dt\<lparr>hour := hour dt + 1, minute := minute dt - 30\<rparr>"
      by (simp add: plus_thirty_minutes_def)
    then show ?thesis by (simp add: civil_seconds_def)
  next
    case 3
    with v have h: "hour dt = 23" by simp
    from 3 assms(2) obtain p where p: "next_day dt = Inr p"
      and r: "r = p\<lparr>hour := 0, minute := minute dt - 30\<rparr>"
      by (auto simp: plus_thirty_minutes_def split: sum.splits)
    have t: "second p = second dt" using p by (auto simp: next_day_def split: if_splits)
    from days_next_day[OF v(1,2,3) p] r h t show ?thesis by (simp add: civil_seconds_def)
  qed
qed

lemma valid_round_half_hour: "valid_datetime now \<Longrightarrow> valid_datetime (round_half_hour now)"
  by (simp add: valid_datetime_def round_half_hour_def Let_def)

lemma days_in_month_pos: "1 \<le> days_in_month y m"
  by (simp add: days_in_month_def)

lemma valid_minus_one_hour:
  "valid_datetime dt \<Longrightarrow> minus_one_hour dt = Inr r \<Longrightarrow> valid_datetime r"
  by (auto simp: minus_one_hour_def prev_day_def valid_datetime_def days_in_month_pos
      split: if_splits sum.splits)
    (simp_all add: days_in_month_def)

lemma minus_one_hour_fields:
  "minus_one_hour dt = Inr r \<Longrightarrow>
     minute r = minute dt \<and> second r = second dt \<and> microsecond r = microsecond dt"
  by (auto simp: minus_one_hour_def prev_day_def split: if_splits sum.splits)

lemma plus_thirty_minutes_fields:
  "plus_thirty_minutes dt = Inr r \<Longrightarrow>
     minute r = (if minute dt < 30 then minute dt + 30 else minute dt - 30) \<and>
     second r = second dt \<and> microsecond r = microsecond dt"
  by (auto simp: plus_thirty_minutes_def next_day_def split: if_splits sum.splits)

lemma minus_one_hour_returns: "1 < year dt \<Longrightarrow> \<exists>r. minus_one_hour dt = Inr r \<and> year r \<le> year dt"
  by (auto simp: minus_one_hour_def prev_day_def)

lemma plus_thirty_minutes_returns: "year dt < 9999 \<Longrightarrow> \<exists>r. plus_thirty_minutes dt = Inr r"
  by (auto simp: plus_thirty_minutes_def next_day_def)

lemma get_timestamp_ms_cases:
  "get_timestamp_ms Z now =
     (if is_dst Z (round_half_hour now)
      then (case minus_one_hour (round_half_hour now) of
              Inl e \<Rightarrow> Inl e
            | Inr r \<Rightarrow>
                (case plus_thirty_minutes r of
                   Inl e \<Rightarrow> Inl e
                 | Inr f \<Rightarrow> Inr (datetime_timestamp Z f * 1000)))
      else (case plus_thirty_minutes (round_half_hour now) of
              Inl e \<Rightarrow> Inl e
            | Inr f \<Rightarrow> Inr (datetime_timestamp Z f * 1000)))"
  by (simp add: get_timestamp_ms_def Let_def)

lemma get_timestamp_ms_final:
  assumes "get_timestamp_ms Z now = Inr ts"
  shows "\<exists>r f. (if is_dst Z (round_half_hour now) then minus_one_hour (round_half_hour now)
                 else Inr (round_half_hour now)) = Inr r \<and>
               plus_thirty_minutes r = Inr f \<and> ts = datetime_timestamp Z f * 1000"
  using assms by (auto simp: get_timestamp_ms_def Let_def split: sum.splits if_splits)

text \<open>
  Claim C6. Daylight saving counts as active for a time exactly when its offset in minutes is
  smaller than the larger of the offsets of the first of January and the first of July of
  the same year. When it is active for the rounded time, one hour is taken from the rounded
  time before thirty minutes are added; otherwise only the thirty minutes are added. On the
  wall clock the final time is the rounded time minus 3600 seconds when active, plus 1800.
\<close>

theorem dst_rule_and_hour_shift:
  "(is_dst Z dt \<longleftrightarrow>
      timezone_offset_minutes Z dt <
        max (timezone_offset_minutes Z (datetime_ymd (year dt) 1 1))
            (timezone_offset_minutes Z (datetime_ymd (year dt) 7 1))) \<and>
   (is_dst Z (round_half_hour now) \<longrightarrow>
      get_timestamp_ms Z now =
        (case minus_one_hour (round_half_hour now) of
           Inl e \<Rightarrow> Inl e
         | Inr r \<Rightarrow>
             (case plus_thirty_minutes r of
                Inl e \<Rightarrow> Inl e
              | Inr f \<Rightarrow> Inr (datetime_timestamp Z f * 1000)))) \<and>
   (\<not> is_dst Z (round_half_hour now) \<longrightarrow>
      get_timestamp_ms Z now =
        (case plus_thirty_minutes (round_half_hour now) of
           Inl e \<Rightarrow> Inl e
         | Inr f \<Rightarrow> Inr (datetime_timestamp Z f * 1000))) \<and>
   (valid_datetime now \<and> get_timestamp_ms Z now = Inr ts \<longrightarrow>
      (\<exists>f. ts = datetime_timestamp Z f * 1000 \<and>
           civil_seconds f =
             civil_seconds (round_half_hour now) -
             (if is_dst Z (round_half_hour now) then 3600 else 0) + 1800))"
proof (intro conjI impI)
  show "is_dst Z dt \<longleftrightarrow>
      timezone_offset_minutes Z dt <
        max (timezone_offset_minutes Z (datetime_ymd (year dt) 1 1))
            (timezone_offset_minutes Z (datetime_ymd (year dt) 7 1))"
    by (simp add: is_dst_def Let_def)
next
  assume "is_dst Z (round_half_hour now)"
  then show "get_timestamp_ms Z now =
        (case minus_one_hour (round_half_hour now) of
           Inl e \<Rightarrow> Inl e
         | Inr r \<Rightarrow>
             (case plus_thirty_minutes r of
                Inl e \<Rightarrow> Inl e
              | Inr f \<Rightarrow> Inr (datetime_timestamp Z f * 1000)))"
    by (simp add: get_timestamp_ms_cases)
next
  assume "\<not> is_dst Z (round_half_hour now)"
  then show "get_timestamp_ms Z now =
        (case plus_thirty_minutes (round_half_hour now) of
           Inl e \<Rightarrow> Inl e
         | Inr f \<Rightarrow> Inr (datetime_timestamp Z f * 1000))"
    by (simp add: get_timestamp_ms_cases)
next
  assume a: "valid_datetime now \<and> get_timestamp_ms Z now = Inr ts"
  let ?r0 = "round_half_hour now"
  from a have v: "valid_datetime ?r0" by (simp add: valid_round_half_hour)
  from a get_timestamp_ms_final[of Z now ts] obtain r f where
    r: "(if is_dst Z ?r0 then minus_one_hour ?r0 else Inr ?r0) = Inr r"
    and f: "plus_thirty_minutes r = Inr f" and ts: "ts = datetime_timestamp Z f * 1000"
    by blast
  have vr: "valid_datetime r" and cr: "civil_seconds r =
      civil_seconds ?r0 - (if is_dst Z ?r0 then 3600 else 0)"
    using r v valid_minus_one_hour[of ?r0 r] civil_seconds_minus_one_hour[of ?r0 r]
    by (auto split: if_splits)
  from civil_seconds_plus_thirty_minutes[OF vr f] cr ts
  show "\<exists>f. ts = datetime_timestamp Z f * 1000 \<and>
           civil_seconds f =
             civil_seconds ?r0 - (if is_dst Z ?r0 then 3600 else 0) + 1800"
    by auto
qed


lemma sample_rounded:
  "round_half_hour sample_now =
     \<lparr>year = 2024, month = 7, day = 15, hour = 10, minute = 0, second = 0, microsecond = 0\<rparr>"
  "round_half_hour sample_winter =
     \<lparr>year = 2024, month = 1, day = 15, hour = 10, minute = 30, second = 0, microsecond = 0\<rparr>"
  by (simp_all add: round_half_hour_def sample_now_def sample_winter_def)

lemma sample_days:
  "days_from_civil 2024 1 1 = 19723"
  "days_from_civil 2024 1 15 = 19737"
  "days_from_civil 2024 7 1 = 19905"
  "days_from_civil 2024 7 15 = 19919"
  by (simp_all add: days_from_civil_def Let_def)

lemma sample_offsets:
  "timezone_offset_minutes sample_tz (datetime_ymd 2024 1 1) = - 60"
  "timezone_offset_minutes sample_tz (datetime_ymd 2024 7 1) = - 120"
  "timezone_offset_minutes sample_tz
     \<lparr>year = 2024, month = 7, day = 15, hour = 10, minute = 0, second = 0, microsecond = 0\<rparr> = - 120"
  "timezone_offset_minutes sample_tz
     \<lparr>year = 2024, month = 1, day = 15, hour = 10, minute = 30, second = 0, microsecond = 0\<rparr> = - 60"
  "timezone_offset_minutes offset_0545_tz dt = - 345"
  by (simp_all add: timezone_offset_minutes_def is_dst_local_def trunc_div_def datetime_ymd_def
      sample_tz_def offset_0545_tz_def sample_isdst_def civil_seconds_def sample_days)

lemma sample_is_dst:
  "is_dst sample_tz (round_half_hour sample_now)"
  "\<not> is_dst sample_tz (round_half_hour sample_winter)"
  "\<not> is_dst offset_0545_tz dt"
  by (simp_all add: is_dst_def sample_rounded sample_offsets)

lemma sample_shifts:
  "minus_one_hour (round_half_hour sample_now) =
     Inr \<lparr>year = 2024, month = 7, day = 15, hour = 9, minute = 0, second = 0, microsecond = 0\<rparr>"
  "plus_thirty_minutes
     \<lparr>year = 2024, month = 7, day = 15, hour = 9, minute = 0, second = 0, microsecond = 0\<rparr> =
     Inr \<lparr>year = 2024, month = 7, day = 15, hour = 9, minute = 30, second = 0, microsecond = 0\<rparr>"
  "plus_thirty_minutes (round_half_hour sample_now) =
     Inr \<lparr>year = 2024, month = 7, day = 15, hour = 10, minute = 30, second = 0, microsecond = 0\<rparr>"
  "plus_thirty_minutes (round_half_hour sample_winter) =
     Inr \<lparr>year = 2024, month = 1, day = 15, hour = 11, minute = 0, second = 0, microsecond = 0\<rparr>"
  by (simp_all add: sample_rounded minus_one_hour_def plus_thirty_minutes_def)

lemma sample_timestamps:
  "datetime_timestamp sample_tz
     \<lparr>year = 2024, month = 7, day = 15, hour = 9, minute = 30, second = 0, microsecond = 0\<rparr> =
     1721028600"
  "datetime_timestamp sample_tz
     \<lparr>year = 2024, month = 1, day = 15, hour = 11, minute = 0, second = 0, microsecond = 0\<rparr> =
     1705312800"
  "datetime_timestamp offset_0545_tz
     \<lparr>year = 2024, month = 7, day = 15, hour = 10, minute = 30, second = 0, microsecond = 0\<rparr> =
     1721018700"
  by (simp_all add: sample_tz_def offset_0545_tz_def sample_isdst_def civil_seconds_def sample_days)

lemma sample_results:
  "get_timestamp_ms sample_tz sample_now = Inr 1721028600000"
  "get_timestamp_ms sample_tz sample_winter = Inr 1705312800000"
  "get_timestamp_ms offset_0545_tz sample_now = Inr 1721018700000"
  by (simp_all add: get_timestamp_ms_def Let_def sample_is_dst sample_shifts sample_timestamps)

lemma sample_valid: "valid_datetime sample_now"
  by (simp add: valid_datetime_def sample_now_def days_in_month_def)

theorem dst_rule_and_hour_shift_witness:
  "is_dst sample_tz (round_half_hour sample_now) \<and>
   minus_one_hour (round_half_hour sample_now) =
     Inr \<lparr>year = 2024, month = 7, day = 15, hour = 9, minute = 0, second = 0, microsecond = 0\<rparr> \<and>
   get_timestamp_ms sample_tz sample_now = Inr 1721028600000 \<and>
   \<not> is_dst sample_tz (round_half_hour sample_winter) \<and>
   get_timestamp_ms sample_tz sample_winter = Inr 1705312800000 \<and>
   valid_datetime sample_now \<and>
   (\<exists>f. (1721028600000::int) = datetime_timestamp sample_tz f * 1000 \<and>
        civil_seconds f = civil_seconds (round_half_hour sample_now) - 3600 + 1800)"
proof -
  note t = dst_rule_and_hour_shift[of sample_tz sample_now sample_now 1721028600000]
  note w = dst_rule_and_hour_shift[of sample_tz sample_now sample_winter 0]
  from t sample_is_dst(1) sample_shifts(1,2) sample_timestamps(1)
  have a: "get_timestamp_ms sample_tz sample_now = Inr 1721028600000" by simp
  from w sample_is_dst(2) sample_shifts(4) sample_timestamps(2)
  have b: "get_timestamp_ms sample_tz sample_winter = Inr 1705312800000" by simp
  from t a sample_valid sample_is_dst(1)
  have c: "\<exists>f. (1721028600000::int) = datetime_timestamp sample_tz f * 1000 \<and>
        civil_seconds f = civil_seconds (round_half_hour sample_now) - 3600 + 1800"
    by simp
  from a b c sample_is_dst(1,2) sample_shifts(1) sample_valid show ?thesis by blast
qed

lemma civil_seconds_half_hour:
  "(minute f = 0 \<or> minute f = 30) \<Longrightarrow> second f = 0 \<Longrightarrow> civil_seconds f mod 1800 = 0"
proof -
  assume a: "minute f = 0 \<or> minute f = 30" "second f = 0"
  have "civil_seconds f =
      1800 * (days_from_civil (year f) (month f) (day f) * 48 + hour f * 2 + minute f div 30)"
    using a by (auto simp: civil_seconds_def)
  then show ?thesis by simp
qed

lemma half_hour_grid_iff:
  assumes "civil_seconds f mod 1800 = 0"
  shows "(t * 1000) mod 1800000 = 0 \<longleftrightarrow> (civil_seconds f - t) mod 1800 = (0::int)"
proof -
  from assms have c: "1800 dvd civil_seconds f" by (simp only: dvd_eq_mod_eq_0)
  have "(t * 1000) mod 1800000 = 0 \<longleftrightarrow> (1000 * 1800) dvd (1000 * t)"
    by (simp add: dvd_eq_mod_eq_0 mult.commute)
  also have "\<dots> \<longleftrightarrow> 1800 dvd t" by (simp only: dvd_mult_cancel_left) simp
  also have "\<dots> \<longleftrightarrow> 1800 dvd civil_seconds f - t" using c by (simp only: dvd_diff_right_iff)
  also have "\<dots> \<longleftrightarrow> (civil_seconds f - t) mod 1800 = 0" by (simp only: dvd_eq_mod_eq_0)
  finally show ?thesis .
qed

lemma final_time_fields:
  assumes r: "(if is_dst Z (round_half_hour now) then minus_one_hour (round_half_hour now)
               else Inr (round_half_hour now)) = Inr r"
    and f: "plus_thirty_minutes r = Inr f"
  shows "(minute f = 0 \<or> minute f = 30) \<and> second f = 0 \<and> microsecond f = 0"
proof -
  let ?r0 = "round_half_hour now"
  have r0: "(minute ?r0 = 0 \<or> minute ?r0 = 30) \<and> second ?r0 = 0 \<and> microsecond ?r0 = 0"
    by (simp add: round_half_hour_def Let_def)
  have "minute r = minute ?r0 \<and> second r = second ?r0 \<and> microsecond r = microsecond ?r0"
    using r minus_one_hour_fields[of ?r0 r] by (auto split: if_splits)
  with r0 have "(minute r = 0 \<or> minute r = 30) \<and> second r = 0 \<and> microsecond r = 0" by simp
  with plus_thirty_minutes_fields[OF f] show ?thesis by auto
qed

lemma final_time_seconds:
  assumes v: "valid_datetime now"
    and r: "(if is_dst Z (round_half_hour now) then minus_one_hour (round_half_hour now)
               else Inr (round_half_hour now)) = Inr r"
    and f: "plus_thirty_minutes r = Inr f"
  shows "civil_seconds f =
           civil_seconds (round_half_hour now) -
           (if is_dst Z (round_half_hour now) then 3600 else 0) + 1800"
proof -
  let ?r0 = "round_half_hour now"
  from v have v0: "valid_datetime ?r0" by (simp add: valid_round_half_hour)
  have vr: "valid_datetime r" and cr: "civil_seconds r =
      civil_seconds ?r0 - (if is_dst Z ?r0 then 3600 else 0)"
    using r v0 valid_minus_one_hour[of ?r0 r] civil_seconds_minus_one_hour[of ?r0 r]
    by (auto split: if_splits)
  from civil_seconds_plus_thirty_minutes[OF vr f] cr show ?thesis by simp
qed

text \<open>
  Claim C7, as the code has it. The rounded time is the input with the minute set to 0 when
  it is below 31 and to 30 otherwise, and with seconds and microseconds set to zero; it is
  not after the input and less than 31 minutes before it. The value returned is the
  timestamp, in milliseconds, of the wall-clock time reached from the rounded time by taking
  one hour away when daylight saving counts as active and adding thirty minutes: its minute
  is 0 or 30, its seconds and microseconds are zero, and it lies 1800 seconds after the
  rounded time, or 1800 seconds before it when the hour was taken away. The value is a
  multiple of 1800000 exactly when the UTC offset of the zone at that wall-clock time is a
  multiple of thirty minutes. A value is returned for every time of the years 2 to 9998.
\<close>

theorem timestamp_on_wall_clock_half_hour:
  "round_half_hour now =
     now\<lparr>minute := (if minute now < 31 then 0 else 30), second := 0, microsecond := 0\<rparr> \<and>
   (valid_datetime now \<longrightarrow>
      civil_seconds (round_half_hour now) \<le> civil_seconds now \<and>
      civil_seconds now < civil_seconds (round_half_hour now) + 1860) \<and>
   (get_timestamp_ms Z now = Inr ts \<longleftrightarrow>
      (\<exists>r f. (if is_dst Z (round_half_hour now) then minus_one_hour (round_half_hour now)
               else Inr (round_half_hour now)) = Inr r \<and>
              plus_thirty_minutes r = Inr f \<and> ts = datetime_timestamp Z f * 1000)) \<and>
   ((if is_dst Z (round_half_hour now) then minus_one_hour (round_half_hour now)
     else Inr (round_half_hour now)) = Inr r \<and> plus_thirty_minutes r = Inr f \<longrightarrow>
      get_timestamp_ms Z now = Inr (datetime_timestamp Z f * 1000) \<and>
      (minute f = 0 \<or> minute f = 30) \<and> second f = 0 \<and> microsecond f = 0 \<and>
      ((datetime_timestamp Z f * 1000) mod 1800000 = 0 \<longleftrightarrow>
         (civil_seconds f - datetime_timestamp Z f) mod 1800 = 0) \<and>
      (valid_datetime now \<longrightarrow>
         civil_seconds f =
           civil_seconds (round_half_hour now) -
           (if is_dst Z (round_half_hour now) then 3600 else 0) + 1800)) \<and>
   (1 < year now \<and> year now < 9999 \<longrightarrow> (\<exists>t. get_timestamp_ms Z now = Inr t))"
proof (intro conjI impI)
  show "round_half_hour now =
     now\<lparr>minute := (if minute now < 31 then 0 else 30), second := 0, microsecond := 0\<rparr>"
    by (simp add: round_half_hour_def)
next
  assume "valid_datetime now"
  then show "civil_seconds (round_half_hour now) \<le> civil_seconds now"
    and "civil_seconds now < civil_seconds (round_half_hour now) + 1860"
    by (auto simp: valid_datetime_def round_half_hour_def civil_seconds_def)
next
  show "get_timestamp_ms Z now = Inr ts \<longleftrightarrow>
      (\<exists>r f. (if is_dst Z (round_half_hour now) then minus_one_hour (round_half_hour now)
               else Inr (round_half_hour now)) = Inr r \<and>
              plus_thirty_minutes r = Inr f \<and> ts = datetime_timestamp Z f * 1000)"
    by (auto simp: get_timestamp_ms_def Let_def split: sum.splits if_splits)
next
  assume a: "(if is_dst Z (round_half_hour now) then minus_one_hour (round_half_hour now)
     else Inr (round_half_hour now)) = Inr r \<and> plus_thirty_minutes r = Inr f"
  then show "get_timestamp_ms Z now = Inr (datetime_timestamp Z f * 1000)"
    by (auto simp: get_timestamp_ms_def Let_def split: if_splits)
  from a have m: "(minute f = 0 \<or> minute f = 30) \<and> second f = 0 \<and> microsecond f = 0"
    using final_time_fields[of Z now r f] by blast
  from m show "minute f = 0 \<or> minute f = 30" by blast
  from m show "second f = 0" by blast
  from m show "microsecond f = 0" by blast
  from m have "civil_seconds f mod 1800 = 0" using civil_seconds_half_hour[of f] by blast
  then show "(datetime_timestamp Z f * 1000) mod 1800000 = 0 \<longleftrightarrow>
         (civil_seconds f - datetime_timestamp Z f) mod 1800 = 0"
    by (rule half_hour_grid_iff)
  assume "valid_datetime now"
  with a show "civil_seconds f =
           civil_seconds (round_half_hour now) -
           (if is_dst Z (round_half_hour now) then 3600 else 0) + 1800"
    using final_time_seconds[of now Z r f] by blast
next
  assume y: "1 < year now \<and> year now < 9999"
  let ?r0 = "round_half_hour now"
  have y0: "year ?r0 = year now" by (simp add: round_half_hour_def Let_def)
  show "\<exists>t. get_timestamp_ms Z now = Inr t"
  proof (cases "is_dst Z ?r0")
    case True
    from y y0 obtain r where r: "minus_one_hour ?r0 = Inr r" "year r \<le> year ?r0"
      using minus_one_hour_returns[of ?r0] by auto
    with y y0 obtain f where "plus_thirty_minutes r = Inr f"
      using plus_thirty_minutes_returns[of r] by auto
    with r True show ?thesis by (simp add: get_timestamp_ms_cases)
  next
    case False
    from y y0 obtain f where "plus_thirty_minutes ?r0 = Inr f"
      using plus_thirty_minutes_returns[of ?r0] by auto
    with False show ?thesis by (simp add: get_timestamp_ms_cases)
  qed
qed

lemma sample_final_seconds:
  "civil_seconds
     \<lparr>year = 2024, month = 7, day = 15, hour = 9, minute = 30, second = 0, microsecond = 0\<rparr> =
     1721035800"
  "civil_seconds (round_half_hour sample_now) = 1721037600"
  "civil_seconds sample_now = 1721038542"
  "civil_seconds
     \<lparr>year = 2024, month = 7, day = 15, hour = 10, minute = 30, second = 0, microsecond = 0\<rparr> =
     1721039400"
  by (simp_all add: civil_seconds_def sample_days sample_rounded) (simp_all add: sample_now_def sample_days)

theorem timestamp_on_wall_clock_half_hour_witness:
  "valid_datetime sample_now \<and> 1 < year sample_now \<and> year sample_now < 9999 \<and>
   is_dst sample_tz (round_half_hour sample_now) \<and>
   minus_one_hour (round_half_hour sample_now) =
     Inr \<lparr>year = 2024, month = 7, day = 15, hour = 9, minute = 0, second = 0, microsecond = 0\<rparr> \<and>
   plus_thirty_minutes
     \<lparr>year = 2024, month = 7, day = 15, hour = 9, minute = 0, second = 0, microsecond = 0\<rparr> =
     Inr \<lparr>year = 2024, month = 7, day = 15, hour = 9, minute = 30, second = 0, microsecond = 0\<rparr> \<and>
   get_timestamp_ms sample_tz sample_now = Inr 1721028600000 \<and>
   (1721028600000::int) mod 1800000 = 0 \<and>
   (1721035800 - 1721028600) mod 1800 = (0::int) \<and>
   civil_seconds (round_half_hour sample_now) \<le> civil_seconds sample_now \<and>
   civil_seconds sample_now < civil_seconds (round_half_hour sample_now) + 1860 \<and>
   civil_seconds
     \<lparr>year = 2024, month = 7, day = 15, hour = 9, minute = 30, second = 0, microsecond = 0\<rparr> =
     civil_seconds (round_half_hour sample_now) - 3600 + 1800"
proof -
  let ?r = "\<lparr>year = 2024, month = 7, day = 15, hour = 9, minute = 0, second = 0,
             microsecond = 0\<rparr> :: datetime"
  let ?f = "\<lparr>year = 2024, month = 7, day = 15, hour = 9, minute = 30, second = 0,
             microsecond = 0\<rparr> :: datetime"
  note t = timestamp_on_wall_clock_half_hour[of sample_now sample_tz 1721028600000 ?r ?f]
  have y: "1 < year sample_now \<and> year sample_now < 9999" by (simp add: sample_now_def)
  have s: "(if is_dst sample_tz (round_half_hour sample_now)
            then minus_one_hour (round_half_hour sample_now)
            else Inr (round_half_hour sample_now)) = Inr ?r \<and> plus_thirty_minutes ?r = Inr ?f"
    using sample_is_dst(1) sample_shifts(1,2) by simp
  from t s have g: "get_timestamp_ms sample_tz sample_now = Inr (datetime_timestamp sample_tz ?f * 1000)"
    by blast
  then have g': "get_timestamp_ms sample_tz sample_now = Inr 1721028600000"
    by (simp add: sample_timestamps(1))
  note u = t[THEN conjunct2, THEN conjunct2, THEN conjunct2, THEN conjunct1, THEN mp, OF s]
  from u have "(datetime_timestamp sample_tz ?f * 1000) mod 1800000 = 0 \<longleftrightarrow>
         (civil_seconds ?f - datetime_timestamp sample_tz ?f) mod 1800 = 0"
    by (elim conjE)
  then have i: "(1721028600000::int) mod 1800000 = 0 \<longleftrightarrow> (1721035800 - 1721028600) mod 1800 = (0::int)"
    by (simp only: sample_timestamps(1) sample_final_seconds(1)) simp
  have o: "(1721035800 - 1721028600) mod 1800 = (0::int)" by simp
  from i o have m: "(1721028600000::int) mod 1800000 = 0" by blast
  from t sample_valid have b: "civil_seconds (round_half_hour sample_now) \<le> civil_seconds sample_now \<and>
      civil_seconds sample_now < civil_seconds (round_half_hour sample_now) + 1860"
    by blast
  from t s sample_valid sample_is_dst(1) have c: "civil_seconds ?f =
      civil_seconds (round_half_hour sample_now) - 3600 + 1800" by simp
  from y sample_valid sample_is_dst(1) sample_shifts(1,2) g' m o b c show ?thesis by blast
qed

text \<open>At UTC+05:45 the value returned is not a multiple of thirty minutes.\<close>

theorem timestamp_not_on_epoch_grid_counterexample:
  "get_timestamp_ms offset_0545_tz sample_now = Inr 1721018700000 \<and>
   (1721018700000::int) mod 1800000 \<noteq> 0"
  using sample_results(3) by simp

section \<open>The river-level tool\<close>

lemma is_integer_below_11:
  assumes "is_integer r" "\<not> 11 \<le> r"
  shows "r \<le> 10"
proof -
  from assms(1)[unfolded is_integer_def] have r: "r = of_int \<lfloor>r\<rfloor>" by (rule sym)
  from assms(2) have "r < 11" by simp
  then have "of_int \<lfloor>r\<rfloor> < (11::rat)" using r by simp
  then have "\<lfloor>r\<rfloor> < 11" by (simp only: of_int_less_numeral_iff)
  then have "\<lfloor>r\<rfloor> \<le> 10" by simp
  then have "(of_int \<lfloor>r\<rfloor> :: rat) \<le> 10" by (simp only: of_int_le_numeral_iff)
  with r show ?thesis by simp
qed

lemma normalize_max_results_invalid:
  "\<not> valid_max_results v \<Longrightarrow> normalize_max_results v 1 10 None = Inl ValueError"
  by (auto simp: valid_max_results_def normalize_max_results_def Let_def
      split: json.splits pyfloat.splits dest: is_integer_below_11)

lemma normalize_max_results_valid:
  "valid_max_results v \<Longrightarrow> \<exists>n. normalize_max_results v 1 10 None = Inr n"
  by (auto simp: valid_max_results_def normalize_max_results_def Let_def
      split: json.splits pyfloat.splits dest: is_integer_below_11)

lemma fetch_trace:
  "get_timestamp_ms (local_tz W) (datetime_now W) = Inr ts \<Longrightarrow>
     fst (fetch_sensor_values L W) = [SensorRequest ts]"
  by (simp add: fetch_sensor_values_def)

text \<open>
  Claim C9. When the query is absent, not a string or blank, or the count is out of range or
  not an integer, the tool raises \<open>ValueError\<close> and has sent no request. With valid input
  the first thing it does is the request to the sensor service.
\<close>

theorem invalid_input_raises_before_fetch:
  "(\<not> valid_fiume fiume \<or> \<not> valid_max_results max_results \<longrightarrow>
      livello_idrometrico L W fiume max_results = ([], Inl ValueError)) \<and>
   (valid_fiume fiume \<and> valid_max_results max_results \<and>
    get_timestamp_ms (local_tz W) (datetime_now W) = Inr ts \<longrightarrow>
      (\<exists>rest. fst (livello_idrometrico L W fiume max_results) = SensorRequest ts # rest))"
proof (intro conjI impI)
  assume a: "\<not> valid_fiume fiume \<or> \<not> valid_max_results max_results"
  show "livello_idrometrico L W fiume max_results = ([], Inl ValueError)"
  proof (cases "valid_fiume fiume")
    case False
    then show ?thesis
      by (auto simp: livello_idrometrico_def valid_fiume_def split: json.splits)
  next
    case True
    with a have "normalize_max_results max_results 1 10 None = Inl ValueError"
      by (simp add: normalize_max_results_invalid)
    with True show ?thesis
      by (auto simp: livello_idrometrico_def valid_fiume_def split: json.splits)
  qed
next
  assume a: "valid_fiume fiume \<and> valid_max_results max_results \<and>
    get_timestamp_ms (local_tz W) (datetime_now W) = Inr ts"
  then obtain name where f: "fiume = JStr name" "py_strip name \<noteq> []"
    by (auto simp: valid_fiume_def split: json.splits)
  from a obtain n where n: "normalize_max_results max_results 1 10 None = Inr n"
    using normalize_max_results_valid by blast
  from a have t: "fst (fetch_sensor_values L W) = [SensorRequest ts]" by (simp add: fetch_trace)
  obtain tr res where r: "fetch_sensor_values L W = (tr, res)"
    by (cases "fetch_sensor_values L W")
  with t have tr: "tr = [SensorRequest ts]" by simp
  show "\<exists>rest. fst (livello_idrometrico L W fiume max_results) = SensorRequest ts # rest"
    unfolding livello_idrometrico_def f using f(2) n r tr
    by (auto simp: Let_def split_def split: sum.splits prod.splits)
qed


lemma floor_five_halves: "\<lfloor>(5::rat) / 2\<rfloor> = 2"
  by (rule floor_unique) simp_all

lemma sample_invalid_inputs:
  "\<not> valid_fiume JNull"
  "\<not> valid_fiume (JStr (ustr ''  ''))"
  "valid_fiume (JStr (ustr ''secchia''))"
  "\<not> valid_max_results (JInt 11)"
  "\<not> valid_max_results (JInt 0)"
  "\<not> valid_max_results (JFloat (Finite (5 / 2)))"
  "\<not> valid_max_results (JBool True)"
  "\<not> valid_max_results (JStr (ustr ''3''))"
  "valid_max_results (JFloat (Finite 3))"
  by (simp_all add: valid_fiume_def valid_max_results_def is_integer_def py_strip_def
      py_isspace_def ustr_def floor_five_halves)

theorem invalid_input_raises_before_fetch_witness:
  "livello_idrometrico sample_lib sample_world JNull JNull = ([], Inl ValueError) \<and>
   livello_idrometrico sample_lib sample_world (JStr (ustr ''  '')) (JInt 3) =
     ([], Inl ValueError) \<and>
   livello_idrometrico sample_lib sample_world (JStr (ustr ''secchia'')) (JInt 11) =
     ([], Inl ValueError) \<and>
   livello_idrometrico sample_lib sample_world (JStr (ustr ''secchia'')) (JFloat (Finite (5 / 2))) =
     ([], Inl ValueError) \<and>
   livello_idrometrico sample_lib sample_world (JStr (ustr ''secchia'')) (JBool True) =
     ([], Inl ValueError) \<and>
   valid_fiume (JStr (ustr ''secchia'')) \<and> valid_max_results (JFloat (Finite 3)) \<and>
   (\<exists>rest. fst (livello_idrometrico sample_lib sample_world (JStr (ustr ''secchia''))
                  (JFloat (Finite 3))) = SensorRequest 1721028600000 # rest)"
proof -
  note t = invalid_input_raises_before_fetch[where L = sample_lib and W = sample_world]
  have g: "get_timestamp_ms (local_tz sample_world) (datetime_now sample_world) =
             Inr 1721028600000"
    using sample_results(1) by (simp add: sample_world_def)
  from t[of JNull JNull] sample_invalid_inputs(1)
  have a: "livello_idrometrico sample_lib sample_world JNull JNull = ([], Inl ValueError)"
    by blast
  from t[of "JStr (ustr ''  '')" "JInt 3"] sample_invalid_inputs(2)
  have b: "livello_idrometrico sample_lib sample_world (JStr (ustr ''  '')) (JInt 3) =
     ([], Inl ValueError)"
    by blast
  from t[of "JStr (ustr ''secchia'')" "JInt 11"] sample_invalid_inputs(4)
  have c: "livello_idrometrico sample_lib sample_world (JStr (ustr ''secchia'')) (JInt 11) =
     ([], Inl ValueError)"
    by blast
  from t[of "JStr (ustr ''secchia'')" "JFloat (Finite (5 / 2))"] sample_invalid_inputs(6)
  have d: "livello_idrometrico sample_lib sample_world (JStr (ustr ''secchia''))
      (JFloat (Finite (5 / 2))) = ([], Inl ValueError)"
    by blast
  from t[of "JStr (ustr ''secchia'')" "JBool True"] sample_invalid_inputs(7)
  have e: "livello_idrometrico sample_lib sample_world (JStr (ustr ''secchia'')) (JBool True) =
     ([], Inl ValueError)"
    by blast
  from t[of "JStr (ustr ''secchia'')" "JFloat (Finite 3)" 1721028600000]
    sample_invalid_inputs(3,9) g
  have f: "\<exists>rest. fst (livello_idrometrico sample_lib sample_world (JStr (ustr ''secchia''))
                  (JFloat (Finite 3))) = SensorRequest 1721028600000 # rest"
    by blast
  from a b c d e f sample_invalid_inputs(3,9) show ?thesis by blast
qed

end
